theory Spec2Isabelle
  imports Main "HOL-Library.Word"
begin

section \<open>The OpenCL tracer controller (tracer/opencl/cl\_tracer.go)\<close>

text \<open>
  The controller drives one OpenCL device through the \<^verbatim>\<open>cl\<close> binding. The binding,
  the \<^verbatim>\<open>scene\<close> package, \<^verbatim>\<open>packScene\<close> and the error values are declared outside the
  file; they enter the model as parameters:
  \<^item> the device is an oracle that answers every \<^verbatim>\<open>cl\<close> call, given the calls made so
    far (\<open>cl_device\<close>);
  \<^item> every effect of the controller (a \<^verbatim>\<open>cl\<close> call with its arguments, a line written
    to the logger, an operation on a channel or on the wait group) is appended to the
    field \<open>effects\<close> of the controller, in program order;
  \<^item> a nil pointer or nil handle is \<open>None\<close>; a Go panic is an error value \<open>Panic\<close>, and
    a call that never returns has the outcome \<open>NeverReturns\<close>;
  \<^item> the worker goroutines are part of the state of the controller (\<open>workers\<close>); the
    body of their loop is one step of the model.
  The mutex of the controller is not modelled: every function below runs alone.
\<close>

subsection \<open>Data\<close>

type_synonym handle = nat
type_synonym float32 = "32 word"
type_synonym ErrorCode = int

definition SUCCESS :: ErrorCode where
  "SUCCESS = 0"

datatype panic =
    NilPointerDereference
  | IndexOutOfRange
  | SliceBoundsOutOfRange
  | CloseOfClosedChannel

datatype error =
    ErrContextCreationFailed
  | ErrCmdQueueCreationFailed
  | ErrAlreadyAttached
  | ErrPendingSetup
  | ErrProgramCreationFailed
  | ErrProgramBuildFailed
  | ErrKernelCreationFailed
  | ErrAllocatingBuffers
  | ErrCopyingDataToDevice
  | ErrSettingKernelArguments
  | ErrKernelExecutionFailed
  | ErrCopyingDataToHost
  | ErrForeign string
  | Panic panic
  | NeverReturns

text \<open>
  \<open>ErrForeign\<close> stands for an error value made outside the file (by \<^verbatim>\<open>os.Open\<close>,
  \<^verbatim>\<open>ioutil.ReadAll\<close> or \<^verbatim>\<open>packScene\<close>) and passed on unchanged. \<open>Panic\<close> and
  \<open>NeverReturns\<close> are not error values of the program: the first is a Go panic, which
  ends the program, and the second is the outcome of a call that waits for ever.
\<close>

record Device =
  DeviceId :: nat
  DeviceName :: string

record CameraT =
  Position :: "float32 list"
  Frustrum :: "float32 list"

record 'prim Scene =
  Camera :: CameraT
  Primitives :: "'prim list"

record BlockRequest =
  BlockY :: "32 word"
  BlockH :: "32 word"
  SamplesPerPixel :: "32 word"
  Exposure :: float32
  Seed :: "32 word"
  RenderTarget :: "float32 list"
  DoneChan :: nat
  ErrChan :: nat

datatype mem_flag = MEM_READ_ONLY | MEM_WRITE_ONLY | MEM_COPY_HOST_PTR

datatype arg_value =
    ArgMem "handle option"
  | ArgInt int
  | ArgVec "float32 list"
  | ArgU32 "32 word"
  | ArgF32 float32

datatype 'p cl_call =
    CreateContext nat
  | CreateCommandQueue handle nat
  | CreateProgramWithSource handle string
  | BuildProgram "handle option" nat
  | GetProgramBuildInfo "handle option" nat "64 word"
  | CreateKernel "handle option" string
  | CreateBuffer handle "mem_flag set" "64 word"
  | CreateImage handle "mem_flag set" "64 word" "64 word" "'p list"
  | EnqueueWriteBuffer "handle option" "handle option" "64 word" "64 word" "float32 list"
  | SetKernelArg "handle option" nat nat arg_value
  | EnqueueNDRangeKernel "handle option" "handle option" nat "64 word list" "64 word list"
  | Finish "handle option"
  | EnqueueReadBuffer "handle option" "handle option" "64 word" "64 word" nat
  | ReleaseMemObject handle
  | ReleaseKernel handle
  | ReleaseProgram handle
  | ReleaseCommandQueue handle
  | ReleaseContext handle

text \<open>
  The arguments kept are the ones the file chooses: \<open>CreateImage c flags width pitch
  data\<close> is a one-dimensional RGBA/FLOAT image of the given width and row pitch, created
  from the host data; \<open>EnqueueWriteBuffer q buf offset size data\<close> and
  \<open>EnqueueReadBuffer q buf offset size i\<close> are blocking transfers, the latter into the
  render target from float index \<open>i\<close> on.
\<close>

datatype log_line =
    FailedFrustrumWrite
  | FailedKernelArg nat
  | BuildLog string
  | CopyToHostFailed "32 word" "32 word" "64 word" "64 word" ErrorCode

datatype 'p effect =
    Call "'p cl_call"
  | Log log_line
  | CloseChan
  | WgWait
  | GoWorker
  | SendErr nat error
  | SendDone nat "32 word"

record 'p cl_device =
  cl_status :: "'p effect list \<Rightarrow> 'p cl_call \<Rightarrow> ErrorCode"
  cl_handle :: "'p effect list \<Rightarrow> 'p cl_call \<Rightarrow> handle option"
  cl_build_log :: "'p effect list \<Rightarrow> string \<times> 64 word"
  cl_buffer :: "'p effect list \<Rightarrow> nat \<Rightarrow> float32"

text \<open>
  \<open>cl_status\<close> is the code a call returns, \<open>cl_handle\<close> the pointer or handle a create
  call returns (\<open>None\<close> is nil), \<open>cl_build_log\<close> the bytes that \<^verbatim>\<open>GetProgramBuildInfo\<close>
  writes and the length it reports, \<open>cl_buffer\<close> the floats of the output buffer at the
  time of a read, by float index.
\<close>

datatype worker = Running | Listening | Handling BlockRequest | Sending

record ('prim, 'p) clTracer =
  id_tr :: string
  device :: Device
  ctx :: "handle option"
  cmdQueue :: "handle option"
  traceProgram :: "handle option"
  traceKernel :: "handle option"
  traceOutput :: "handle option"
  frustrumCorners :: "handle option"
  packedMaterials :: "handle option"
  packedPrimitives :: "handle option"
  scene :: "'prim Scene option"
  frameW :: "32 word"
  frameH :: "32 word"
  closeChanClosed :: bool
  workers :: "worker list"
  effects :: "'p effect list"

text \<open>
  \<open>workers\<close> holds the worker goroutines that have not returned: the wait group counts
  them. A worker is \<open>Listening\<close> while it is blocked in the \<^verbatim>\<open>select\<close> of its loop,
  \<open>Handling r\<close> once it has received \<open>r\<close>, \<open>Sending\<close> while it is blocked in the send of a
  reply that nobody receives, and \<open>Running\<close> otherwise.
\<close>

record ('prim, 'p) environment =
  dev :: "'p cl_device"
  tracerSource :: "error + string"
  packScene :: "'prim Scene option \<Rightarrow> error + 'p list \<times> 'p list"
  sizeofMaterial :: nat
  sizeofPrimitive :: nat
  received :: "nat \<Rightarrow> bool"

text \<open>
  \<open>tracerSource\<close> is what opening and reading the kernel source file gives;
  \<open>sizeofMaterial\<close> and \<open>sizeofPrimitive\<close> are \<^verbatim>\<open>unsafe.Sizeof\<close> of one element of the
  two slices that \<^verbatim>\<open>packScene\<close> returns. \<^verbatim>\<open>DoneChan\<close> and \<^verbatim>\<open>ErrChan\<close> of a request are
  channels of its sender, named by a number; \<open>received ch\<close> says whether a value sent on
  \<open>ch\<close> is ever taken, so that the send returns.
\<close>

subsection \<open>Calls and effects\<close>

definition emit :: "'p effect \<Rightarrow> ('prim, 'p) clTracer \<Rightarrow> ('prim, 'p) clTracer" where
  "emit e tr = tr\<lparr>effects := effects tr @ [e]\<rparr>"

definition status :: "'p cl_device \<Rightarrow> 'p cl_call \<Rightarrow> ('prim, 'p) clTracer \<Rightarrow> ErrorCode" where
  "status d c tr = cl_status d (effects tr) c"

definition created :: "'p cl_device \<Rightarrow> 'p cl_call \<Rightarrow> ('prim, 'p) clTracer \<Rightarrow> handle option" where
  "created d c tr = cl_handle d (effects tr) c"

definition release ::
  "(handle \<Rightarrow> 'p cl_call) \<Rightarrow> handle option \<Rightarrow> ('prim, 'p) clTracer \<Rightarrow> ('prim, 'p) clTracer" where
  "release rel h tr = (case h of None \<Rightarrow> tr | Some x \<Rightarrow> emit (Call (rel x)) tr)"

definition new_effects ::
  "('prim, 'p) clTracer \<Rightarrow> ('prim, 'p) clTracer \<Rightarrow> 'p effect list" where
  "new_effects tr tr' = drop (length (effects tr)) (effects tr')"

subsection \<open>newTracer\<close>

text \<open>
  \<^verbatim>\<open>var errptr *int32\<close> is nil and is never assigned, so neither creation check of
  \<^verbatim>\<open>newTracer\<close> can fire. \<^verbatim>\<open>*ctx\<close> panics when \<^verbatim>\<open>CreateContext\<close> returned nil.
\<close>

definition errptr :: "ErrorCode option" where
  "errptr = None"

definition newTracer ::
  "'p cl_device \<Rightarrow> string \<Rightarrow> Device \<Rightarrow> error + ('prim, 'p) clTracer" where
  "newTracer d ident device' =
     (let c1 = CreateContext (DeviceId device');
          ctx' = cl_handle d [] c1
      in if errptr \<noteq> None \<and> the errptr \<noteq> SUCCESS then Inl ErrContextCreationFailed
         else case ctx' of
           None \<Rightarrow> Inl (Panic NilPointerDereference)
         | Some c \<Rightarrow>
             let c2 = CreateCommandQueue c (DeviceId device');
                 cq = cl_handle d [Call c1] c2
             in if errptr \<noteq> None \<and> the errptr \<noteq> SUCCESS then Inl ErrCmdQueueCreationFailed
                else Inr \<lparr> id_tr = ident, device = device', ctx = Some c, cmdQueue = cq,
                           traceProgram = None, traceKernel = None, traceOutput = None,
                           frustrumCorners = None, packedMaterials = None,
                           packedPrimitives = None, scene = None, frameW = 0, frameH = 0,
                           closeChanClosed = False, workers = [],
                           effects = [Call c1, Call c2] \<rparr>)"

subsection \<open>syncScene and SyncScene\<close>

text \<open>
  \<^verbatim>\<open>&tr.scene.Camera.Frustrum[0]\<close> is evaluated before the call and panics on a nil
  scene.
\<close>

definition syncScene ::
  "'p cl_device \<Rightarrow> bool \<Rightarrow> ('prim, 'p) clTracer \<Rightarrow> (error + unit) \<times> ('prim, 'p) clTracer" where
  "syncScene d useLock tr =
     (if ctx tr = None then (Inl ErrPendingSetup, tr)
      else case scene tr of
        None \<Rightarrow> (Inl (Panic NilPointerDereference), tr)
      | Some sc \<Rightarrow>
          let c = EnqueueWriteBuffer (cmdQueue tr) (frustrumCorners tr) 0 (4 * 16)
                    (Frustrum (Camera sc))
          in if status d c tr \<noteq> SUCCESS
             then (Inl ErrCopyingDataToDevice, emit (Log FailedFrustrumWrite) (emit (Call c) tr))
             else (Inr (), emit (Call c) tr))"

definition SyncScene ::
  "'p cl_device \<Rightarrow> ('prim, 'p) clTracer \<Rightarrow> (error + unit) \<times> ('prim, 'p) clTracer" where
  "SyncScene d tr = syncScene d True tr"

subsection \<open>process\<close>

text \<open>
  The ten \<^verbatim>\<open>SetKernelArg\<close> calls of the source are the same three statements with
  another index, size and value each time. \<open>kernelArgs\<close> lists (index, size, value) in
  source order and \<open>setKernelArgs\<close> runs the list, stopping at the first call that does
  not return \<^verbatim>\<open>cl.SUCCESS\<close>. Argument 4 is a Go \<^verbatim>\<open>int\<close> of which the call passes 4 bytes.
\<close>

definition kernelArgs ::
  "('prim, 'p) clTracer \<Rightarrow> BlockRequest \<Rightarrow> 'prim Scene \<Rightarrow> (nat \<times> nat \<times> arg_value) list" where
  "kernelArgs tr blockReq sc =
     [(0, 8, ArgMem (traceOutput tr)),
      (1, 8, ArgMem (frustrumCorners tr)),
      (2, 8, ArgMem (packedPrimitives tr)),
      (3, 8, ArgMem (packedMaterials tr)),
      (4, 4, ArgInt (int (length (Primitives sc)))),
      (5, 16, ArgVec (Position (Camera sc))),
      (6, 4, ArgU32 (BlockY blockReq)),
      (7, 4, ArgU32 (SamplesPerPixel blockReq)),
      (8, 4, ArgF32 (Exposure blockReq)),
      (9, 4, ArgU32 (Seed blockReq))]"

definition argCall :: "handle option \<Rightarrow> nat \<times> nat \<times> arg_value \<Rightarrow> 'p cl_call" where
  "argCall k a = SetKernelArg k (fst a) (fst (snd a)) (snd (snd a))"

fun setKernelArgs ::
  "'p cl_device \<Rightarrow> handle option \<Rightarrow> (nat \<times> nat \<times> arg_value) list \<Rightarrow> ('prim, 'p) clTracer
     \<Rightarrow> bool \<times> ('prim, 'p) clTracer" where
  "setKernelArgs d k [] tr = (True, tr)"
| "setKernelArgs d k (a # rest) tr =
     (if status d (argCall k a) tr \<noteq> SUCCESS
      then (False, emit (Log (FailedKernelArg (fst a))) (emit (Call (argCall k a)) tr))
      else setKernelArgs d k rest (emit (Call (argCall k a)) tr))"

definition readOffset :: "('prim, 'p) clTracer \<Rightarrow> BlockRequest \<Rightarrow> 64 word" where
  "readOffset tr blockReq = ucast (frameW tr * 4 * 4 * BlockY blockReq)"

definition blockSizeBytes :: "('prim, 'p) clTracer \<Rightarrow> BlockRequest \<Rightarrow> 64 word" where
  "blockSizeBytes tr blockReq = ucast (frameW tr * 4 * 4 * BlockH blockReq)"

text \<open>
  The copy back (lines 320 to 338). \<^verbatim>\<open>&blockReq.RenderTarget[readOffset>>2]\<close> panics
  when the index is not below the length of the slice; the source makes no other check.
  The device then writes \<open>blockSizeBytes\<close> bytes, that is \<open>blockSizeBytes div 4\<close> floats,
  from that element on: those that lie within the slice replace its elements, and the
  others, if the slice is too short for the block, land behind it, in memory that the
  model does not hold. Both the offset and the size are multiples of 16, so the floats
  read are those of the output buffer at the same float indices. The result is the render
  target after the copy.
\<close>

definition copyBlock ::
  "'p cl_device \<Rightarrow> BlockRequest \<Rightarrow> ('prim, 'p) clTracer
     \<Rightarrow> (error + float32 list) \<times> ('prim, 'p) clTracer" where
  "copyBlock d blockReq tr =
     (let off = readOffset tr blockReq;
          size' = blockSizeBytes tr blockReq;
          i = unat (drop_bit 2 off);
          n = unat size' div 4;
          rt = RenderTarget blockReq
      in if length rt \<le> i then (Inl (Panic IndexOutOfRange), tr)
         else
           let c = EnqueueReadBuffer (cmdQueue tr) (traceOutput tr) off size' i
           in if status d c tr \<noteq> SUCCESS
              then (Inl ErrCopyingDataToHost,
                    emit (Log (CopyToHostFailed (BlockY blockReq) (BlockH blockReq) off size'
                                 (status d c tr)))
                      (emit (Call c) tr))
              else (Inr (take i rt
                           @ map (cl_buffer d (effects tr)) [i ..< min (i + n) (length rt)]
                           @ drop (i + n) rt),
                    emit (Call c) tr))"

text \<open>\<^verbatim>\<open>tr.scene.Camera.Position()\<close> panics on a nil scene.\<close>

definition process ::
  "'p cl_device \<Rightarrow> BlockRequest \<Rightarrow> ('prim, 'p) clTracer
     \<Rightarrow> (error + float32 list) \<times> ('prim, 'p) clTracer" where
  "process d blockReq tr =
     (case scene tr of
        None \<Rightarrow> (Inl (Panic NilPointerDereference), tr)
      | Some sc \<Rightarrow>
          let w = EnqueueWriteBuffer (cmdQueue tr) (frustrumCorners tr) 0 (4 * 16)
                    (Frustrum (Camera sc))
          in if status d w tr \<noteq> SUCCESS
             then (Inl ErrCopyingDataToDevice, emit (Log FailedFrustrumWrite) (emit (Call w) tr))
             else
               case setKernelArgs d (traceKernel tr) (kernelArgs tr blockReq sc)
                      (emit (Call w) tr) of
                 (ok, tr) \<Rightarrow>
                   if \<not> ok then (Inl ErrSettingKernelArguments, tr)
                   else
                     let k = EnqueueNDRangeKernel (cmdQueue tr) (traceKernel tr) 2
                               [0, ucast (BlockY blockReq)]
                               [ucast (frameW tr), ucast (BlockH blockReq)]
                     in if status d k tr \<noteq> SUCCESS
                        then (Inl ErrKernelExecutionFailed, emit (Call k) tr)
                        else
                          let tr = emit (Call k) tr;
                              f = Finish (cmdQueue tr)
                          in if status d f tr \<noteq> SUCCESS
                             then (Inl ErrKernelExecutionFailed, emit (Call f) tr)
                             else copyBlock d blockReq (emit (Call f) tr))"

subsection \<open>The worker\<close>

text \<open>
  The loop of the goroutine that \<open>Setup\<close> starts (lines 133 to 152), one step at a time.
  \<open>listen i\<close> is worker \<open>i\<close> reaching the \<^verbatim>\<open>select\<close>: it blocks there, or takes the
  second case and returns when \<^verbatim>\<open>closeChan\<close> is closed. \<open>serve env i\<close> is the body of the
  first case for the request that worker \<open>i\<close> holds: \<open>process\<close>, then the reply, sent on
  \<^verbatim>\<open>ErrChan\<close> or on \<^verbatim>\<open>DoneChan\<close>. \<open>reply\<close> returns whether the send has returned; when
  nobody receives, the worker stays blocked in it. A panic ends the program, so nothing
  is sent after one. \<open>serve\<close> returns the render target when the block was copied into
  it.
\<close>

definition listen :: "nat \<Rightarrow> ('prim, 'p) clTracer \<Rightarrow> ('prim, 'p) clTracer" where
  "listen i tr =
     (if i < length (workers tr) \<and> workers tr ! i = Running
      then if closeChanClosed tr
           then tr\<lparr>workers := take i (workers tr) @ drop (Suc i) (workers tr)\<rparr>
           else tr\<lparr>workers := (workers tr)[i := Listening]\<rparr>
      else tr)"

definition reply ::
  "(nat \<Rightarrow> bool) \<Rightarrow> BlockRequest \<Rightarrow> (error + float32 list) \<times> ('prim, 'p) clTracer
     \<Rightarrow> (error + bool) \<times> ('prim, 'p) clTracer" where
  "reply rcv blockReq r =
     (case r of
        (Inl (Panic p), tr) \<Rightarrow> (Inl (Panic p), tr)
      | (Inl err, tr) \<Rightarrow>
          if rcv (ErrChan blockReq)
          then (Inr True, emit (SendErr (ErrChan blockReq) err) tr)
          else (Inr False, tr)
      | (Inr rt, tr) \<Rightarrow>
          if rcv (DoneChan blockReq)
          then (Inr True, emit (SendDone (DoneChan blockReq) (BlockH blockReq)) tr)
          else (Inr False, tr))"


text \<open>
  \<^verbatim>\<open>tr.wg.Wait()\<close> after \<^verbatim>\<open>close(tr.closeChan)\<close> returns when every worker has returned.
  A worker that is on its way to the \<^verbatim>\<open>select\<close>, or blocked in it, takes the second case
  and returns. A worker that holds a request runs the body of the first case before: it
  comes back to the \<^verbatim>\<open>select\<close>, and returns, only when its reply has been received.
  \<open>leave\<close> is the rest of the life of one worker, with \<open>True\<close> when it returns. \<open>wgWait\<close>
  lets the workers finish one after the other, in the order in which they were started,
  and returns the workers that never return: the wait ends when there is none.
\<close>

fun leave ::
  "('prim, 'p) environment \<Rightarrow> worker \<Rightarrow> ('prim, 'p) clTracer
     \<Rightarrow> (error + bool) \<times> ('prim, 'p) clTracer" where
  "leave env Running tr = (Inr True, tr)"
| "leave env Listening tr = (Inr True, tr)"
| "leave env (Handling blockReq) tr =
     reply (received env) blockReq (process (dev env) blockReq tr)"
| "leave env Sending tr = (Inr False, tr)"

fun wgWait ::
  "('prim, 'p) environment \<Rightarrow> worker list \<Rightarrow> ('prim, 'p) clTracer
     \<Rightarrow> (error + worker list) \<times> ('prim, 'p) clTracer" where
  "wgWait env [] tr = (Inr [], tr)"
| "wgWait env (w # ws) tr =
     (case leave env w tr of
        (Inl e, tr) \<Rightarrow> (Inl e, tr)
      | (Inr gone, tr) \<Rightarrow>
          (case wgWait env ws tr of
             (Inl e, tr) \<Rightarrow> (Inl e, tr)
           | (Inr stuck, tr) \<Rightarrow> (Inr (if gone then stuck else Sending # stuck), tr)))"

subsection \<open>cleanup and Close\<close>

text \<open>
  \<^verbatim>\<open>close(tr.closeChan)\<close> panics on a channel that is closed already. \<^verbatim>\<open>tr.wg.Wait()\<close>
  returns when every worker has returned, and never when one of them is blocked for
  ever; the effect \<open>WgWait\<close> is its return. The codes that the release calls return are
  dropped by the source, so \<open>cleanup\<close> does not ask the device for them. \<open>useLock\<close> only
  chooses whether the mutex is taken.
\<close>

definition cleanup ::
  "('prim, 'p) environment \<Rightarrow> bool \<Rightarrow> ('prim, 'p) clTracer
     \<Rightarrow> (error + unit) \<times> ('prim, 'p) clTracer" where
  "cleanup env useLock tr =
     (if ctx tr = None then (Inr (), tr)
      else if closeChanClosed tr then (Inl (Panic CloseOfClosedChannel), tr)
      else
        let tr = (emit CloseChan tr)\<lparr>closeChanClosed := True\<rparr>
        in case wgWait env (workers tr) tr of
             (Inl e, tr) \<Rightarrow> (Inl e, tr)
           | (Inr (w # ws), tr) \<Rightarrow> (Inl NeverReturns, tr\<lparr>workers := w # ws\<rparr>)
           | (Inr [], tr) \<Rightarrow>
               let tr = (emit WgWait tr)\<lparr>workers := []\<rparr>;
                   tr = (release ReleaseMemObject (packedPrimitives tr) tr)\<lparr>packedPrimitives := None\<rparr>;
                   tr = (release ReleaseMemObject (packedMaterials tr) tr)\<lparr>packedMaterials := None\<rparr>;
                   tr = (release ReleaseMemObject (traceOutput tr) tr)\<lparr>traceOutput := None\<rparr>;
                   tr = (release ReleaseMemObject (frustrumCorners tr) tr)\<lparr>frustrumCorners := None\<rparr>;
                   tr = (release ReleaseKernel (traceKernel tr) tr)\<lparr>traceKernel := None\<rparr>;
                   tr = (release ReleaseProgram (traceProgram tr) tr)\<lparr>traceProgram := None\<rparr>;
                   tr = (release ReleaseCommandQueue (cmdQueue tr) tr)\<lparr>cmdQueue := None\<rparr>;
                   tr = (release ReleaseContext (ctx tr) tr)\<lparr>ctx := None\<rparr>
               in (Inr (), tr))"

definition Close ::
  "('prim, 'p) environment \<Rightarrow> ('prim, 'p) clTracer \<Rightarrow> (error + unit) \<times> ('prim, 'p) clTracer" where
  "Close env tr = cleanup env True tr"

subsection \<open>setupKernel and Setup\<close>

text \<open>
  \<^verbatim>\<open>var errPtr *int32\<close> is nil and never assigned, as in \<^verbatim>\<open>newTracer\<close>: the checks that
  follow the create calls cannot fire, and a nil program, kernel, buffer or image goes
  unnoticed. \<open>failWith env err\<close> is \<^verbatim>\<open>tr.cleanup(false); return err\<close>.
\<close>

definition errPtr :: "ErrorCode option" where
  "errPtr = None"

definition failWith ::
  "('prim, 'p) environment \<Rightarrow> error \<Rightarrow> ('prim, 'p) clTracer
     \<Rightarrow> (error + unit) \<times> ('prim, 'p) clTracer" where
  "failWith env err tr =
     (case cleanup env False tr of
        (Inl p, tr') \<Rightarrow> (Inl p, tr')
      | (Inr u, tr') \<Rightarrow> (Inl err, tr'))"

text \<open>
  The build log (lines 400 to 404): \<^verbatim>\<open>data\<close> is 120000 zero bytes into which the device
  writes; \<^verbatim>\<open>data[0:dataLen-1]\<close> is computed in \<^verbatim>\<open>uint64\<close> and panics when the bound is
  above the capacity.
\<close>

definition buildLogText :: "string \<times> 64 word \<Rightarrow> error + string" where
  "buildLogText r =
     (let data = take 120000 (fst r @ replicate 120000 (CHR 0x00));
          dataLen = snd r
      in if 120000 < unat (dataLen - 1) then Inl (Panic SliceBoundsOutOfRange)
         else Inr (take (unat (dataLen - 1)) data))"

definition buildFailed ::
  "('prim, 'p) environment \<Rightarrow> ('prim, 'p) clTracer \<Rightarrow> (error + unit) \<times> ('prim, 'p) clTracer" where
  "buildFailed env tr =
     (let c = GetProgramBuildInfo (traceProgram tr) (DeviceId (device tr)) 120000;
          r = cl_build_log (dev env) (effects tr);
          tr = emit (Call c) tr
      in case buildLogText r of
           Inl p \<Rightarrow> (Inl p, tr)
         | Inr text' \<Rightarrow> failWith env ErrProgramBuildFailed (emit (Log (BuildLog text')) tr))"

definition imageCall :: "handle \<Rightarrow> nat \<Rightarrow> 'p list \<Rightarrow> 'p cl_call" where
  "imageCall c sizeof packed =
     (let sizeInBytes = (of_nat (length packed) * of_nat sizeof :: 64 word)
      in CreateImage c {MEM_READ_ONLY, MEM_COPY_HOST_PTR} (drop_bit 4 sizeInBytes) sizeInBytes
           packed)"

text \<open>Lines 431 to 485: pack the scene, create the two images, sync the scene.\<close>

definition uploadScene ::
  "('prim, 'p) environment \<Rightarrow> handle \<Rightarrow> ('prim, 'p) clTracer
     \<Rightarrow> (error + unit) \<times> ('prim, 'p) clTracer" where
  "uploadScene env c tr =
     (case packScene env (scene tr) of
        Inl err \<Rightarrow> failWith env err tr
      | Inr (packedMaterials', packedPrimitives') \<Rightarrow>
          let tr = (if 0 < length packedMaterials'
                    then let i = imageCall c (sizeofMaterial env) packedMaterials'
                         in (emit (Call i) tr)\<lparr>packedMaterials := created (dev env) i tr\<rparr>
                    else tr)
          in if 0 < length packedMaterials' \<and> errPtr \<noteq> None \<and> the errPtr \<noteq> SUCCESS
             then failWith env ErrAllocatingBuffers tr
             else
               let tr = (if 0 < length packedPrimitives'
                         then let i = imageCall c (sizeofPrimitive env) packedPrimitives'
                              in (emit (Call i) tr)\<lparr>packedPrimitives := created (dev env) i tr\<rparr>
                         else tr)
               in if 0 < length packedPrimitives' \<and> errPtr \<noteq> None \<and> the errPtr \<noteq> SUCCESS
                  then failWith env ErrAllocatingBuffers tr
                  else
                    (case syncScene (dev env) False tr of
                       (Inl (Panic p), tr) \<Rightarrow> (Inl (Panic p), tr)
                     | (Inl err, tr) \<Rightarrow> failWith env err tr
                     | (Inr u, tr) \<Rightarrow> (Inr (), tr)))"

text \<open>Lines 409 to 429: the kernel and the two buffers.\<close>

definition allocBuffers ::
  "('prim, 'p) environment \<Rightarrow> handle \<Rightarrow> 32 word \<Rightarrow> 32 word \<Rightarrow> ('prim, 'p) clTracer
     \<Rightarrow> (error + unit) \<times> ('prim, 'p) clTracer" where
  "allocBuffers env c frameW' frameH' tr =
     (let d = dev env;
          k = CreateKernel (traceProgram tr) (''tracePixel'' @ [CHR 0x00]);
          tr = (emit (Call k) tr)\<lparr>traceKernel := created d k tr\<rparr>
      in if errPtr \<noteq> None \<and> the errPtr \<noteq> SUCCESS then failWith env ErrKernelCreationFailed tr
         else
           let b1 = CreateBuffer c {MEM_WRITE_ONLY} (ucast (4 * 4 * frameW' * frameH'));
               tr = (emit (Call b1) tr)\<lparr>traceOutput := created d b1 tr\<rparr>
           in if errPtr \<noteq> None \<and> the errPtr \<noteq> SUCCESS then failWith env ErrAllocatingBuffers tr
              else
                let b2 = CreateBuffer c {MEM_READ_ONLY} (4 * 4 * 4);
                    tr = (emit (Call b2) tr)\<lparr>frustrumCorners := created d b2 tr\<rparr>
                in if errPtr \<noteq> None \<and> the errPtr \<noteq> SUCCESS
                   then failWith env ErrAllocatingBuffers tr
                   else uploadScene env c tr)"

text \<open>\<^verbatim>\<open>*tr.ctx\<close> panics on a nil context.\<close>

definition setupKernel ::
  "('prim, 'p) environment \<Rightarrow> 'prim Scene option \<Rightarrow> 32 word \<Rightarrow> 32 word \<Rightarrow> ('prim, 'p) clTracer
     \<Rightarrow> (error + unit) \<times> ('prim, 'p) clTracer" where
  "setupKernel env sc frameW' frameH' tr =
     (case tracerSource env of
        Inl err \<Rightarrow> (Inl err, tr)
      | Inr template \<Rightarrow>
          (case ctx tr of
             None \<Rightarrow> (Inl (Panic NilPointerDereference), tr)
           | Some c \<Rightarrow>
               let d = dev env;
                   p = CreateProgramWithSource c (template @ [CHR 0x00]);
                   tr = (emit (Call p) tr)\<lparr>traceProgram := created d p tr\<rparr>
               in if errPtr \<noteq> None \<and> the errPtr \<noteq> SUCCESS
                  then (Inl ErrProgramCreationFailed, tr)
                  else
                    let b = BuildProgram (traceProgram tr) (DeviceId (device tr))
                    in if status d b tr \<noteq> SUCCESS then buildFailed env (emit (Call b) tr)
                       else allocBuffers env c frameW' frameH' (emit (Call b) tr)))"

text \<open>
  \<open>Setup\<close> starts the worker and returns once the worker has closed \<^verbatim>\<open>readyChan\<close>: the
  worker is running, on its way to the \<^verbatim>\<open>select\<close>.
\<close>

definition Setup ::
  "('prim, 'p) environment \<Rightarrow> 'prim Scene option \<Rightarrow> 32 word \<Rightarrow> 32 word \<Rightarrow> ('prim, 'p) clTracer
     \<Rightarrow> (error + unit) \<times> ('prim, 'p) clTracer" where
  "Setup env sc frameW' frameH' tr =
     (if traceKernel tr \<noteq> None then (Inl ErrAlreadyAttached, tr)
      else
        let tr = tr\<lparr>scene := sc, frameW := frameW', frameH := frameH'\<rparr>
        in case setupKernel env sc frameW' frameH' tr of
             (Inl err, tr) \<Rightarrow> (Inl err, tr)
           | (Inr u, tr) \<Rightarrow> (Inr (), (emit GoWorker tr)\<lparr>workers := workers tr @ [Running]\<rparr>))"

subsection \<open>Enqueue\<close>

text \<open>
  \<^verbatim>\<open>blockReqChan\<close> has no buffer. The \<^verbatim>\<open>select\<close> of \<open>Enqueue\<close> sends when a worker is
  blocked receiving and takes the \<^verbatim>\<open>default\<close> branch otherwise. \<open>handoff\<close> gives the
  request to the first listening worker, or is \<open>None\<close> when there is none.
\<close>

fun handoff :: "BlockRequest \<Rightarrow> worker list \<Rightarrow> worker list option" where
  "handoff r [] = None"
| "handoff r (Listening # ws) = Some (Handling r # ws)"
| "handoff r (w # ws) = map_option ((#) w) (handoff r ws)"

definition Enqueue :: "BlockRequest \<Rightarrow> ('prim, 'p) clTracer \<Rightarrow> ('prim, 'p) clTracer" where
  "Enqueue blockReq tr =
     (case handoff blockReq (workers tr) of
        Some ws \<Rightarrow> tr\<lparr>workers := ws\<rparr>
      | None \<Rightarrow> tr)"

subsection \<open>Concrete devices, scenes and requests\<close>

text \<open>
  \<open>okDevice\<close> returns \<^verbatim>\<open>cl.SUCCESS\<close> to every call and a fresh non-nil handle to every
  create call; its output buffer holds the float with bit pattern 7 everywhere. In
  \<open>okEnv\<close> every reply is received.
\<close>

definition okDevice :: "nat cl_device" where
  "okDevice =
     \<lparr> cl_status = (\<lambda>h c. SUCCESS),
       cl_handle = (\<lambda>h c. Some (Suc (length h))),
       cl_build_log = (\<lambda>h. ([], 0)),
       cl_buffer = (\<lambda>h i. 7) \<rparr>"

definition gpu :: Device where
  "gpu = \<lparr> DeviceId = 0, DeviceName = ''gpu'' \<rparr>"

definition unitScene :: "nat Scene" where
  "unitScene =
     \<lparr> Camera = \<lparr> Position = [0, 0, 0, 0], Frustrum = replicate 16 0 \<rparr>,
       Primitives = [5] \<rparr>"

definition okEnv :: "(nat, nat) environment" where
  "okEnv =
     \<lparr> dev = okDevice,
       tracerSource = Inr ''kernel'',
       packScene = (\<lambda>s. Inr ([10, 11], [20])),
       sizeofMaterial = 16,
       sizeofPrimitive = 16,
       received = (\<lambda>ch. True) \<rparr>"

definition freshTracer :: "(nat, nat) clTracer" where
  "freshTracer = projr (newTracer okDevice ''t0'' gpu)"

definition readyTracer :: "(nat, nat) clTracer" where
  "readyTracer = snd (Setup okEnv (Some unitScene) 2 2 freshTracer)"

text \<open>
  \<open>wideTracer\<close> is the ready controller with a frame \<open>2 ^ 28 + 1\<close> pixels wide, and
  \<open>rowOne\<close> asks for row 1 alone, into a render target of eight floats.
\<close>

definition wideTracer :: "(nat, nat) clTracer" where
  "wideTracer = readyTracer\<lparr>frameW := 0x10000001\<rparr>"

definition rowOne :: BlockRequest where
  "rowOne = \<lparr> BlockY = 1, BlockH = 1, SamplesPerPixel = 1, Exposure = 0, Seed = 0,
               RenderTarget = [0, 0, 0, 0, 0, 0, 0, 0], DoneChan = 0, ErrChan = 1 \<rparr>"

subsection \<open>Vocabulary of the properties\<close>

text \<open>
  The release calls; \<open>held rel h\<close> is the release of a handle that is not nil;
  \<open>releases tr\<close> lists, in the order of \<open>cleanup\<close>, the releases of the handles that
  \<open>tr\<close> holds. \<open>closing tr\<close> is \<open>tr\<close> once \<^verbatim>\<open>closeChan\<close> is closed, and \<open>releasing tr\<close>
  is \<open>tr\<close> after the return of \<^verbatim>\<open>tr.wg.Wait()\<close> and the releases.
\<close>

fun is_release :: "'p effect \<Rightarrow> bool" where
  "is_release (Call (ReleaseMemObject h)) = True"
| "is_release (Call (ReleaseKernel h)) = True"
| "is_release (Call (ReleaseProgram h)) = True"
| "is_release (Call (ReleaseCommandQueue h)) = True"
| "is_release (Call (ReleaseContext h)) = True"
| "is_release e = False"

definition held :: "(handle \<Rightarrow> 'p cl_call) \<Rightarrow> handle option \<Rightarrow> 'p effect list" where
  "held rel h = (case h of None \<Rightarrow> [] | Some x \<Rightarrow> [Call (rel x)])"

definition releases :: "('prim, 'p) clTracer \<Rightarrow> 'p effect list" where
  "releases tr =
     held ReleaseMemObject (packedPrimitives tr) @ held ReleaseMemObject (packedMaterials tr)
     @ held ReleaseMemObject (traceOutput tr) @ held ReleaseMemObject (frustrumCorners tr)
     @ held ReleaseKernel (traceKernel tr) @ held ReleaseProgram (traceProgram tr)
     @ held ReleaseCommandQueue (cmdQueue tr) @ held ReleaseContext (ctx tr)"

definition closing :: "('prim, 'p) clTracer \<Rightarrow> ('prim, 'p) clTracer" where
  "closing tr = (emit CloseChan tr)\<lparr>closeChanClosed := True\<rparr>"

definition releasing :: "('prim, 'p) clTracer \<Rightarrow> ('prim, 'p) clTracer" where
  "releasing tr = tr\<lparr> ctx := None, cmdQueue := None, traceProgram := None, traceKernel := None,
     traceOutput := None, frustrumCorners := None, packedMaterials := None, packedPrimitives := None,
     workers := [], effects := effects tr @ WgWait # releases tr \<rparr>"



text \<open>
  \<^verbatim>\<open>closeChan\<close> is closed only by \<open>cleanup\<close>, which sets the context to nil.
\<close>

definition chanInv :: "('prim, 'p) clTracer \<Rightarrow> bool" where
  "chanInv tr = (closeChanClosed tr \<longrightarrow> ctx tr = None)"

text \<open>
  Closed forms of the straight-line parts of \<open>setupKernel\<close>: the controller after the
  two images (\<open>imgM\<close>, \<open>imgP\<close>), after the kernel and the two buffers (\<open>buffers\<close>),
  after the program was created and built (\<open>program\<close>; \<open>built\<close> says that the build
  returned \<^verbatim>\<open>cl.SUCCESS\<close>), and the last step (\<open>syncOrFail\<close>).
\<close>

definition withImage ::
  "'p cl_device \<Rightarrow> handle \<Rightarrow> nat \<Rightarrow> 'p list \<Rightarrow> ('prim, 'p) clTracer \<Rightarrow> handle option \<times> ('prim, 'p) clTracer" where
  "withImage d c sizeof packed tr = (created d (imageCall c sizeof packed) tr, emit (Call (imageCall c sizeof packed)) tr)"


definition imgM :: "('prim, 'p) environment \<Rightarrow> handle \<Rightarrow> 'p list \<Rightarrow> ('prim, 'p) clTracer \<Rightarrow> ('prim, 'p) clTracer" where
  "imgM env c ms tr = (if ms = [] then tr
     else (snd (withImage (dev env) c (sizeofMaterial env) ms tr))\<lparr>packedMaterials := fst (withImage (dev env) c (sizeofMaterial env) ms tr)\<rparr>)"

definition imgP :: "('prim, 'p) environment \<Rightarrow> handle \<Rightarrow> 'p list \<Rightarrow> ('prim, 'p) clTracer \<Rightarrow> ('prim, 'p) clTracer" where
  "imgP env c ps tr = (if ps = [] then tr
     else (snd (withImage (dev env) c (sizeofPrimitive env) ps tr))\<lparr>packedPrimitives := fst (withImage (dev env) c (sizeofPrimitive env) ps tr)\<rparr>)"

definition buffers ::
  "('prim, 'p) environment \<Rightarrow> handle \<Rightarrow> 32 word \<Rightarrow> 32 word \<Rightarrow> ('prim, 'p) clTracer \<Rightarrow> ('prim, 'p) clTracer" where
  "buffers env c w h tr =
     (let d = dev env;
          k = CreateKernel (traceProgram tr) (''tracePixel'' @ [CHR 0x00]);
          tr = (emit (Call k) tr)\<lparr>traceKernel := created d k tr\<rparr>;
          b1 = CreateBuffer c {MEM_WRITE_ONLY} (ucast (4 * 4 * w * h));
          tr = (emit (Call b1) tr)\<lparr>traceOutput := created d b1 tr\<rparr>;
          b2 = CreateBuffer c {MEM_READ_ONLY} (4 * 4 * 4);
          tr = (emit (Call b2) tr)\<lparr>frustrumCorners := created d b2 tr\<rparr>
      in tr)"

definition program ::
  "('prim, 'p) environment \<Rightarrow> handle \<Rightarrow> string \<Rightarrow> ('prim, 'p) clTracer \<Rightarrow> ('prim, 'p) clTracer" where
  "program env c template tr =
     (let d = dev env;
          p = CreateProgramWithSource c (template @ [CHR 0x00]);
          tr = (emit (Call p) tr)\<lparr>traceProgram := created d p tr\<rparr>;
          b = BuildProgram (traceProgram tr) (DeviceId (device tr))
      in emit (Call b) tr)"


text \<open>
  \<open>busyTracer\<close> is the ready controller whose worker has reached the \<^verbatim>\<open>select\<close> and
  has then been handed \<open>rowOne\<close>: the worker is occupied.
\<close>

definition busyTracer :: "(nat, nat) clTracer" where
  "busyTracer = Enqueue rowOne (listen 0 readyTracer)"

text \<open>
  \<open>stubbornDevice\<close> refuses kernel argument 3 and accepts every other call;
  \<open>lowerRow\<close> asks for row 1 of the 2 by 2 frame of \<open>readyTracer\<close>, into a render target
  of the full frame (16 floats).
\<close>

fun arg3_status :: "nat cl_call \<Rightarrow> ErrorCode" where
  "arg3_status (SetKernelArg k i s v) = (if i = 3 then - 48 else SUCCESS)"
| "arg3_status c = SUCCESS"

definition stubbornDevice :: "nat cl_device" where
  "stubbornDevice = okDevice\<lparr>cl_status := (\<lambda>h c. arg3_status c)\<rparr>"

definition lowerRow :: BlockRequest where
  "lowerRow = \<lparr> BlockY = 1, BlockH = 1, SamplesPerPixel = 4, Exposure = 0, Seed = 42,
                 RenderTarget = [0, 0, 0, 0, 0, 0, 0, 0, 0, 0, 0, 0, 0, 0, 0, 0],
                 DoneChan = 0, ErrChan = 1 \<rparr>"

text \<open>
  The effects that bind a kernel argument, that dispatch the kernel, that write to the
  logger; \<open>binds k args\<close> are the binding calls of a list of arguments;
  \<open>frustumWrite\<close> and \<open>ndrange\<close> are the first call of \<open>process\<close> and its dispatch, and
  \<open>dispatch\<close> is \<open>process\<close> from the dispatch on (lines 296 to 340).
\<close>

fun is_arg :: "'p effect \<Rightarrow> bool" where
  "is_arg (Call (SetKernelArg k i s v)) = True"
| "is_arg e = False"

fun is_dispatch :: "'p effect \<Rightarrow> bool" where
  "is_dispatch (Call (EnqueueNDRangeKernel q k n off size')) = True"
| "is_dispatch e = False"

fun is_log :: "'p effect \<Rightarrow> bool" where
  "is_log (Log l) = True"
| "is_log e = False"

definition binds :: "handle option \<Rightarrow> (nat \<times> nat \<times> arg_value) list \<Rightarrow> 'p effect list" where
  "binds k args = map (\<lambda>a. Call (argCall k a)) args"

definition frustumWrite :: "('prim, 'p) clTracer \<Rightarrow> 'prim Scene \<Rightarrow> 'p cl_call" where
  "frustumWrite tr sc =
     EnqueueWriteBuffer (cmdQueue tr) (frustrumCorners tr) 0 (4 * 16) (Frustrum (Camera sc))"

definition ndrange :: "('prim, 'p) clTracer \<Rightarrow> BlockRequest \<Rightarrow> 'p cl_call" where
  "ndrange tr blockReq =
     EnqueueNDRangeKernel (cmdQueue tr) (traceKernel tr) 2 [0, ucast (BlockY blockReq)]
       [ucast (frameW tr), ucast (BlockH blockReq)]"

definition dispatch ::
  "'p cl_device \<Rightarrow> BlockRequest \<Rightarrow> ('prim, 'p) clTracer
     \<Rightarrow> (error + float32 list) \<times> ('prim, 'p) clTracer" where
  "dispatch d blockReq tr =
     (let k = ndrange tr blockReq
      in if status d k tr \<noteq> SUCCESS
         then (Inl ErrKernelExecutionFailed, emit (Call k) tr)
         else
           let tr = emit (Call k) tr;
               f = Finish (cmdQueue tr)
           in if status d f tr \<noteq> SUCCESS
              then (Inl ErrKernelExecutionFailed, emit (Call f) tr)
              else copyBlock d blockReq (emit (Call f) tr))"

text \<open>
  \<open>deafDevice\<close> fails every read of a buffer and accepts every other call.
\<close>

fun read_status :: "nat cl_call \<Rightarrow> ErrorCode" where
  "read_status (EnqueueReadBuffer q b off size' i) = - 5"
| "read_status c = SUCCESS"

definition deafDevice :: "nat cl_device" where
  "deafDevice = okDevice\<lparr>cl_status := (\<lambda>h c. read_status c)\<rparr>"

text \<open>
  The reads of a buffer; \<open>readCall\<close> is the read that \<open>process\<close> makes, and
  \<open>beforeCopy\<close> is the controller when it makes it: after the frustum upload, the ten
  bindings, the dispatch and the wait.
\<close>

fun is_read :: "'p effect \<Rightarrow> bool" where
  "is_read (Call (EnqueueReadBuffer q b off size' i)) = True"
| "is_read e = False"

definition readCall :: "('prim, 'p) clTracer \<Rightarrow> BlockRequest \<Rightarrow> 'p cl_call" where
  "readCall tr blockReq =
     EnqueueReadBuffer (cmdQueue tr) (traceOutput tr) (readOffset tr blockReq)
       (blockSizeBytes tr blockReq) (unat (drop_bit 2 (readOffset tr blockReq)))"

definition beforeCopy ::
  "('prim, 'p) clTracer \<Rightarrow> 'prim Scene \<Rightarrow> BlockRequest \<Rightarrow> ('prim, 'p) clTracer" where
  "beforeCopy tr sc blockReq =
     tr\<lparr>effects := effects tr @ Call (frustumWrite tr sc)
                      # binds (traceKernel tr) (kernelArgs tr blockReq sc)
                      @ [Call (ndrange tr blockReq), Call (Finish (cmdQueue tr))]\<rparr>"

text \<open>
  The effects of a worker at work: the calls of \<open>process\<close>, the lines it logs and the
  replies. \<open>adds P tr tr'\<close> says that \<open>tr'\<close> is \<open>tr\<close> with more effects, all of them in \<open>P\<close>,
  and nothing else changed.
\<close>

fun is_work :: "'p effect \<Rightarrow> bool" where
  "is_work (Call (EnqueueWriteBuffer q b off size' data)) = True"
| "is_work (Call (SetKernelArg k i s v)) = True"
| "is_work (Call (EnqueueNDRangeKernel q k n off size')) = True"
| "is_work (Call (Finish q)) = True"
| "is_work (Call (EnqueueReadBuffer q b off size' i)) = True"
| "is_work (Log l) = True"
| "is_work (SendErr ch e) = True"
| "is_work (SendDone ch h) = True"
| "is_work e = False"

definition adds ::
  "('p effect \<Rightarrow> bool) \<Rightarrow> ('prim, 'p) clTracer \<Rightarrow> ('prim, 'p) clTracer \<Rightarrow> bool" where
  "adds P tr tr' = (\<exists>es. tr' = tr\<lparr>effects := effects tr @ es\<rparr> \<and> list_all P es)"

text \<open>
  \<open>started tr\<close> is \<open>tr\<close> once \<open>Setup\<close> has started the worker.
\<close>

definition started :: "('prim, 'p) clTracer \<Rightarrow> ('prim, 'p) clTracer" where
  "started tr = (emit GoWorker tr)\<lparr>workers := workers tr @ [Running]\<rparr>"

text \<open>
  The answers of the device to \<open>process\<close>, each asked with the calls made before it:
  \<open>refused d tr sc blockReq i\<close> says that the binding of argument \<open>i\<close> does not return
  \<^verbatim>\<open>cl.SUCCESS\<close>; \<open>bound\<close> that the frustum upload and the ten bindings do; and
  \<open>reachesCopy\<close> that the dispatch and the wait do as well, so that \<open>process\<close> comes to
  the copy back.
\<close>

definition refused ::
  "'p cl_device \<Rightarrow> ('prim, 'p) clTracer \<Rightarrow> 'prim Scene \<Rightarrow> BlockRequest \<Rightarrow> nat \<Rightarrow> bool" where
  "refused d tr sc blockReq i =
     (cl_status d
        (effects tr @ Call (frustumWrite tr sc)
           # take i (binds (traceKernel tr) (kernelArgs tr blockReq sc)))
        (argCall (traceKernel tr) (kernelArgs tr blockReq sc ! i)) \<noteq> SUCCESS)"

definition bound ::
  "'p cl_device \<Rightarrow> ('prim, 'p) clTracer \<Rightarrow> 'prim Scene \<Rightarrow> BlockRequest \<Rightarrow> bool" where
  "bound d tr sc blockReq =
     (status d (frustumWrite tr sc) tr = SUCCESS
      \<and> list_all (\<lambda>i. \<not> refused d tr sc blockReq i) [0 ..< 10])"

definition reachesCopy ::
  "'p cl_device \<Rightarrow> ('prim, 'p) clTracer \<Rightarrow> 'prim Scene \<Rightarrow> BlockRequest \<Rightarrow> bool" where
  "reachesCopy d tr sc blockReq =
     (bound d tr sc blockReq
      \<and> cl_status d
          (effects tr @ Call (frustumWrite tr sc)
             # binds (traceKernel tr) (kernelArgs tr blockReq sc))
          (ndrange tr blockReq) = SUCCESS
      \<and> cl_status d
          (effects tr @ Call (frustumWrite tr sc)
             # binds (traceKernel tr) (kernelArgs tr blockReq sc) @ [Call (ndrange tr blockReq)])
          (Finish (cmdQueue tr)) = SUCCESS)"

text \<open>
  \<open>shortRow\<close> is \<open>lowerRow\<close> with a render target of nine floats, one more than the
  offset of the block.
\<close>

definition shortRow :: BlockRequest where
  "shortRow = lowerRow\<lparr>RenderTarget := [0, 0, 0, 0, 0, 0, 0, 0, 0]\<rparr>"



definition servedRow :: "nat effect list" where
  "servedRow =
     [Call (EnqueueWriteBuffer (Some 2) (Some 7) 0 64 (Frustrum (Camera unitScene))),
      Call (SetKernelArg (Some 5) 0 8 (ArgMem (Some 6))),
      Call (SetKernelArg (Some 5) 1 8 (ArgMem (Some 7))),
      Call (SetKernelArg (Some 5) 2 8 (ArgMem (Some 9))),
      Call (SetKernelArg (Some 5) 3 8 (ArgMem (Some 8))),
      Call (SetKernelArg (Some 5) 4 4 (ArgInt 1)),
      Call (SetKernelArg (Some 5) 5 16 (ArgVec [0, 0, 0, 0])),
      Call (SetKernelArg (Some 5) 6 4 (ArgU32 1)),
      Call (SetKernelArg (Some 5) 7 4 (ArgU32 4)),
      Call (SetKernelArg (Some 5) 8 4 (ArgF32 0)),
      Call (SetKernelArg (Some 5) 9 4 (ArgU32 42)),
      Call (EnqueueNDRangeKernel (Some 2) (Some 5) 2 [0, 1] [2, 1]),
      Call (Finish (Some 2)),
      Call (EnqueueReadBuffer (Some 2) (Some 6) 32 32 8)]"

section \<open>Properties\<close>

subsection \<open>The byte offsets of the copy back\<close>

lemma unat_widen: "unat (ucast (x :: 32 word) :: 64 word) = unat x"
proof -
  have "unat x < 2 ^ 32"
    using unsigned_less [of x] by simp
  then have "unat x < 2 ^ 64"
    by simp
  then show ?thesis
    by (simp add: unsigned_ucast_eq take_bit_nat_eq_self)
qed

lemma unat_scaled: "unat ((w :: 32 word) * 4 * 4 * y) = (unat w * 16 * unat y) mod 2 ^ 32"
proof -
  have "w * 4 * 4 * y = w * 16 * y" by simp
  then show ?thesis
    by (simp add: unat_word_ariths mod_mult_left_eq mod_mult_right_eq mult.commute)
qed

lemma wideTracer_frameW: "frameW wideTracer = 0x10000001"
  by (simp add: wideTracer_def)

subsection \<open>SyncScene on a controller that was never set up\<close>

lemma newTracer_ok:
  "newTracer d ident dv = Inr tr \<Longrightarrow>
     ctx tr \<noteq> None \<and> scene tr = None \<and> \<not> closeChanClosed tr \<and> traceKernel tr = None"
  by (auto simp: newTracer_def errptr_def Let_def split: option.splits)

lemma syncScene_nil_ctx: "ctx tr = None \<Longrightarrow> syncScene d b tr = (Inl ErrPendingSetup, tr)"
  by (simp add: syncScene_def)

lemma freshTracer_eq: "newTracer okDevice ''t0'' gpu = Inr freshTracer"
  by (simp add: freshTracer_def newTracer_def okDevice_def errptr_def Let_def)

text \<open>
  C1. The claim is that \<open>SyncScene\<close> before \<open>Setup\<close> returns \<open>ErrPendingSetup\<close> and
  uploads nothing. The guard of \<open>syncScene\<close> tests the context, which \<open>newTracer\<close> has
  set already, so on every controller that \<open>newTracer\<close> returns the guard is passed and
  the nil scene is dereferenced: the call panics (no upload is made, and no
  \<open>ErrPendingSetup\<close> is returned).
\<close>

theorem SyncScene_before_Setup_panics:
  "newTracer d ident dv = Inr tr \<Longrightarrow> SyncScene d' tr = (Inl (Panic NilPointerDereference), tr)"
  using newTracer_ok [of d ident dv tr] by (auto simp: SyncScene_def syncScene_def)

theorem SyncScene_before_Setup_panics_witness:
  "newTracer okDevice ''t0'' gpu = Inr freshTracer
   \<and> SyncScene okDevice freshTracer = (Inl (Panic NilPointerDereference), freshTracer)"
  using SyncScene_before_Setup_panics [OF freshTracer_eq, of okDevice] freshTracer_eq by simp

subsection \<open>What a function adds to the effects\<close>

lemma adds_refl [simp]: "adds P tr tr"
  by (simp add: adds_def exI [of _ "[]"])

lemma adds_emit: "P e \<Longrightarrow> adds P tr (emit e tr)"
  by (simp add: adds_def emit_def exI [of _ "[e]"])

lemma adds_trans: "adds P tr tr1 \<Longrightarrow> adds P tr1 tr2 \<Longrightarrow> adds P tr tr2"
proof -
  assume "adds P tr tr1" "adds P tr1 tr2"
  then obtain es fs where a: "tr1 = tr\<lparr>effects := effects tr @ es\<rparr>" "list_all P es"
      and b: "tr2 = tr1\<lparr>effects := effects tr1 @ fs\<rparr>" "list_all P fs"
    unfolding adds_def by blast
  have "tr2 = tr\<lparr>effects := effects tr @ (es @ fs)\<rparr>" "list_all P (es @ fs)"
    using a b by simp_all
  then show ?thesis unfolding adds_def by blast
qed

lemma adds_emit2: "adds P tr tr1 \<Longrightarrow> P e \<Longrightarrow> adds P tr (emit e tr1)"
  using adds_trans adds_emit by blast



lemma setKernelArgs_adds: "adds is_work tr (snd (setKernelArgs d k args tr))"
proof (induction args arbitrary: tr)
  case Nil
  then show ?case by simp
next
  case (Cons a args)
  have c: "adds is_work tr (emit (Call (argCall k a)) tr)"
    by (rule adds_emit) (simp add: argCall_def)
  show ?case
  proof (cases "status d (argCall k a) tr \<noteq> SUCCESS")
    case True
    then show ?thesis using adds_emit2 [OF c, of "Log (FailedKernelArg (fst a))"] by simp
  next
    case False
    then show ?thesis using adds_trans [OF c Cons.IH [of "emit (Call (argCall k a)) tr"]] by simp
  qed
qed

lemma copyBlock_adds: "adds is_work tr (snd (copyBlock d blockReq tr))"
  by (simp add: copyBlock_def Let_def adds_emit adds_emit2)

lemma process_adds: "adds is_work tr (snd (process d blockReq tr))"
proof (cases "scene tr")
  case None
  then show ?thesis by (simp add: process_def)
next
  case (Some sc)
  let ?w = "EnqueueWriteBuffer (cmdQueue tr) (frustrumCorners tr) 0 (4 * 16) (Frustrum (Camera sc))"
  let ?tr1 = "emit (Call ?w) tr"
  let ?s = "setKernelArgs d (traceKernel tr) (kernelArgs tr blockReq sc) ?tr1"
  let ?tr2 = "snd ?s"
  let ?k = "EnqueueNDRangeKernel (cmdQueue ?tr2) (traceKernel ?tr2) 2 [0, ucast (BlockY blockReq)]
              [ucast (frameW ?tr2), ucast (BlockH blockReq)]"
  let ?tr3 = "emit (Call ?k) ?tr2"
  let ?f = "Finish (cmdQueue ?tr3)"
  let ?tr4 = "emit (Call ?f) ?tr3"
  have 1: "adds is_work tr ?tr1" by (rule adds_emit) simp
  have 2: "adds is_work tr ?tr2" using adds_trans [OF 1 setKernelArgs_adds] .
  have 3: "adds is_work tr ?tr3" by (rule adds_emit2 [OF 2]) simp
  have 4: "adds is_work tr ?tr4" by (rule adds_emit2 [OF 3]) simp
  have 5: "adds is_work tr (snd (copyBlock d blockReq ?tr4))"
    using adds_trans [OF 4 copyBlock_adds] .
  have l: "adds is_work tr (emit (Log FailedFrustrumWrite) ?tr1)"
    by (rule adds_emit2 [OF 1]) simp
  show ?thesis
    using Some 1 2 3 4 5 l by (simp add: process_def Let_def case_prod_beta)
qed

lemma reply_adds: "adds is_work (snd r) (snd (reply rcv blockReq r))"
proof (cases r)
  case (Pair res tr)
  show ?thesis
  proof (cases res)
    case (Inl e)
    then show ?thesis using Pair by (cases e) (simp_all add: reply_def adds_emit)
  next
    case (Inr rt)
    then show ?thesis using Pair by (simp add: reply_def adds_emit)
  qed
qed






lemma wgWait_idle:
  "set ws \<subseteq> {Running, Listening} \<Longrightarrow> wgWait env ws tr = (Inr [], tr)"
proof (induction ws)
  case Nil
  then show ?case by simp
next
  case (Cons w ws)
  then show ?case by (cases w) simp_all
qed

lemma wgWait_stuck: "fst (wgWait env ws tr) = Inr stuck \<Longrightarrow> set stuck \<subseteq> {Sending}"
proof (induction ws arbitrary: tr stuck)
  case Nil
  then show ?case by simp
next
  case (Cons w ws)
  obtain r tr1 where l: "leave env w tr = (r, tr1)" by (cases "leave env w tr")
  obtain r2 tr2 where k: "wgWait env ws tr1 = (r2, tr2)" by (cases "wgWait env ws tr1")
  show ?case
  proof (cases r)
    case (Inl e')
    then show ?thesis using Cons.prems l by simp
  next
    case (Inr gone)
    show ?thesis
    proof (cases r2)
      case (Inl e')
      then show ?thesis using Cons.prems l k Inr by simp
    next
      case r2: (Inr rest)
      have "set rest \<subseteq> {Sending}" using Cons.IH [of tr1 rest] k r2 by simp
      then show ?thesis using Cons.prems l k Inr r2 by (auto split: if_splits)
    qed
  qed
qed

subsection \<open>cleanup\<close>

lemma release_eq: "release rel h tr = tr\<lparr>effects := effects tr @ held rel h\<rparr>"
  by (cases h) (simp_all add: release_def held_def emit_def)

lemma releasing_eq:
  "(let tr = (emit WgWait t)\<lparr>workers := []\<rparr>;
        tr = (release ReleaseMemObject (packedPrimitives tr) tr)\<lparr>packedPrimitives := None\<rparr>;
        tr = (release ReleaseMemObject (packedMaterials tr) tr)\<lparr>packedMaterials := None\<rparr>;
        tr = (release ReleaseMemObject (traceOutput tr) tr)\<lparr>traceOutput := None\<rparr>;
        tr = (release ReleaseMemObject (frustrumCorners tr) tr)\<lparr>frustrumCorners := None\<rparr>;
        tr = (release ReleaseKernel (traceKernel tr) tr)\<lparr>traceKernel := None\<rparr>;
        tr = (release ReleaseProgram (traceProgram tr) tr)\<lparr>traceProgram := None\<rparr>;
        tr = (release ReleaseCommandQueue (cmdQueue tr) tr)\<lparr>cmdQueue := None\<rparr>;
        tr = (release ReleaseContext (ctx tr) tr)\<lparr>ctx := None\<rparr>
    in (Inr () :: error + unit, tr)) = (Inr (), releasing t)"
  by (simp add: releasing_def releases_def Let_def release_eq emit_def)

lemma cleanup_eq:
  "cleanup env b tr =
     (if ctx tr = None then (Inr (), tr)
      else if closeChanClosed tr then (Inl (Panic CloseOfClosedChannel), tr)
      else case wgWait env (workers tr) (closing tr) of
             (Inl e, t) \<Rightarrow> (Inl e, t)
           | (Inr [], t) \<Rightarrow> (Inr (), releasing t)
           | (Inr (w # ws), t) \<Rightarrow> (Inl NeverReturns, t\<lparr>workers := w # ws\<rparr>))"
proof -
  have w: "workers (closing tr) = workers tr"
    by (simp add: closing_def emit_def)
  show ?thesis
    unfolding cleanup_def closing_def [symmetric] Let_def [of "closing tr"] w releasing_eq
    by (simp split: prod.split sum.split list.split)
qed





lemma failWith_eq:
  "failWith env err tr =
     (case fst (cleanup env False tr) of Inl p \<Rightarrow> Inl p | Inr u \<Rightarrow> Inl err,
      snd (cleanup env False tr))"
  by (simp add: failWith_def split: prod.split sum.split)

lemma failWith_not_ok [simp]: "fst (failWith env e tr) \<noteq> Inr u"
  by (simp add: failWith_eq split: sum.split)


subsection \<open>The close channel is closed at most once\<close>

lemma chanInv_updates [simp]:
  "chanInv (emit e tr) = chanInv tr"
  "chanInv (tr\<lparr>traceProgram := h\<rparr>) = chanInv tr"
  "chanInv (tr\<lparr>traceKernel := h\<rparr>) = chanInv tr"
  "chanInv (tr\<lparr>traceOutput := h\<rparr>) = chanInv tr"
  "chanInv (tr\<lparr>frustrumCorners := h\<rparr>) = chanInv tr"
  "chanInv (tr\<lparr>packedMaterials := h\<rparr>) = chanInv tr"
  "chanInv (tr\<lparr>packedPrimitives := h\<rparr>) = chanInv tr"
  "chanInv (tr\<lparr>scene := sc\<rparr>) = chanInv tr"
  "chanInv (tr\<lparr>frameW := w\<rparr>) = chanInv tr"
  "chanInv (tr\<lparr>frameH := w\<rparr>) = chanInv tr"
  "chanInv (tr\<lparr>workers := ws\<rparr>) = chanInv tr"
  "chanInv (tr\<lparr>effects := es\<rparr>) = chanInv tr"
  by (simp_all add: chanInv_def emit_def)

lemma chanInv_adds: "adds P tr tr' \<Longrightarrow> chanInv tr' = chanInv tr"
  by (auto simp: adds_def)




lemma chanInv_process [simp]: "chanInv (snd (process d blockReq tr)) = chanInv tr"
  using chanInv_adds [OF process_adds] .

lemma chanInv_Enqueue [simp]: "chanInv tr \<Longrightarrow> chanInv (Enqueue r tr)"
  by (auto simp: Enqueue_def split: option.splits)

lemma chanInv_listen [simp]: "chanInv tr \<Longrightarrow> chanInv (listen i tr)"
  by (auto simp: listen_def)

lemma chanInv_reply [simp]: "chanInv (snd (reply rcv blockReq r)) = chanInv (snd r)"
  using chanInv_adds [OF reply_adds] .





lemma chanInv_closed_forms [simp]:
  "chanInv (imgM env c ms tr) = chanInv tr"
  "chanInv (imgP env c ps tr) = chanInv tr"
  "chanInv (buffers env c w h tr) = chanInv tr"
  "chanInv (program env c template tr) = chanInv tr"
  by (simp_all add: imgM_def imgP_def withImage_def buffers_def program_def Let_def chanInv_def emit_def)



lemma buildFailed_eq:
  "buildFailed env tr =
     (case buildLogText (cl_build_log (dev env) (effects tr)) of
        Inl p \<Rightarrow> (Inl p, emit (Call (GetProgramBuildInfo (traceProgram tr) (DeviceId (device tr)) 120000)) tr)
      | Inr text' \<Rightarrow>
          failWith env ErrProgramBuildFailed
            (emit (Log (BuildLog text'))
               (emit (Call (GetProgramBuildInfo (traceProgram tr) (DeviceId (device tr)) 120000)) tr)))"
  by (simp add: buildFailed_def Let_def)

lemma buildLogText_panics: "buildLogText r = Inl e \<Longrightarrow> e = Panic SliceBoundsOutOfRange"
  by (auto simp: buildLogText_def Let_def split: if_splits)

lemma buildFailed_not_ok [simp]: "fst (buildFailed env tr) \<noteq> Inr u"
  by (simp add: buildFailed_eq split: sum.split)




lemma chanInv_started [simp]: "chanInv (started tr) = chanInv tr"
  by (simp add: started_def)



subsection \<open>process, case by case\<close>

lemma process_eq:
  "scene tr = Some sc \<Longrightarrow>
   process d blockReq tr =
     (if status d (frustumWrite tr sc) tr \<noteq> SUCCESS
      then (Inl ErrCopyingDataToDevice,
            emit (Log FailedFrustrumWrite) (emit (Call (frustumWrite tr sc)) tr))
      else if \<not> fst (setKernelArgs d (traceKernel tr) (kernelArgs tr blockReq sc)
                       (emit (Call (frustumWrite tr sc)) tr))
      then (Inl ErrSettingKernelArguments,
            snd (setKernelArgs d (traceKernel tr) (kernelArgs tr blockReq sc)
                   (emit (Call (frustumWrite tr sc)) tr)))
      else dispatch d blockReq
             (snd (setKernelArgs d (traceKernel tr) (kernelArgs tr blockReq sc)
                     (emit (Call (frustumWrite tr sc)) tr))))"
  by (simp add: process_def dispatch_def frustumWrite_def ndrange_def Let_def case_prod_beta)

lemma setKernelArgs_fields:
  "snd (setKernelArgs d k args tr) = tr\<lparr>effects := effects (snd (setKernelArgs d k args tr))\<rparr>"
proof (induction args arbitrary: tr)
  case Nil
  then show ?case by simp
next
  case (Cons a args)
  show ?case
  proof (cases "status d (argCall k a) tr \<noteq> SUCCESS")
    case True
    then show ?thesis by (simp add: emit_def)
  next
    case False
    then show ?thesis using Cons.IH [of "emit (Call (argCall k a)) tr"] by (simp add: emit_def)
  qed
qed

lemma setKernelArgs_effects:
  "\<exists>n logs. n \<le> length args \<and> list_all is_log logs
     \<and> effects (snd (setKernelArgs d k args tr)) = effects tr @ binds k (take n args) @ logs
     \<and> (fst (setKernelArgs d k args tr) \<longrightarrow> n = length args \<and> logs = [])"
proof (induction args arbitrary: tr)
  case Nil
  then show ?case by (simp add: binds_def)
next
  case (Cons a args)
  show ?case
  proof (cases "status d (argCall k a) tr \<noteq> SUCCESS")
    case True
    then show ?thesis
      by (intro exI [of _ 1] exI [of _ "[Log (FailedKernelArg (fst a))]"]) (simp add: emit_def binds_def)
  next
    case False
    obtain n logs where n: "n \<le> length args" "list_all is_log logs"
      "effects (snd (setKernelArgs d k args (emit (Call (argCall k a)) tr)))
         = effects (emit (Call (argCall k a)) tr) @ binds k (take n args) @ logs"
      "fst (setKernelArgs d k args (emit (Call (argCall k a)) tr)) \<longrightarrow> n = length args \<and> logs = []"
      using Cons.IH [of "emit (Call (argCall k a)) tr"] by blast
    show ?thesis
      using False n by (intro exI [of _ "Suc n"] exI [of _ logs]) (simp add: emit_def binds_def)
  qed
qed

lemma setKernelArgs_ok_iff:
  "fst (setKernelArgs d k args tr)
     = (\<forall>i<length args. cl_status d (effects tr @ binds k (take i args)) (argCall k (args ! i)) = SUCCESS)"
proof (induction args arbitrary: tr)
  case Nil
  then show ?case by simp
next
  case (Cons a args)
  show ?case
  proof (cases "status d (argCall k a) tr \<noteq> SUCCESS")
    case True
    then have "\<not> cl_status d (effects tr @ binds k (take 0 (a # args))) (argCall k ((a # args) ! 0)) = SUCCESS"
      by (simp add: status_def binds_def)
    then show ?thesis using True by auto
  next
    case False
    then show ?thesis
      using Cons.IH [of "emit (Call (argCall k a)) tr"]
      by (simp add: All_less_Suc2 status_def emit_def binds_def)
  qed
qed

lemma binds_filters [simp]:
  "filter is_arg (binds k xs) = binds k xs"
  "list_ex is_dispatch (binds k xs) = False"
  by (induction xs) (simp_all add: binds_def argCall_def)

lemma length_binds [simp]: "length (binds k xs) = length xs"
  by (simp add: binds_def)

lemma logs_filters:
  "list_all is_log logs \<Longrightarrow> filter is_arg logs = [] \<and> \<not> list_ex is_dispatch logs"
proof (induction logs)
  case Nil
  then show ?case by simp
next
  case (Cons e logs)
  then show ?case by (cases e) simp_all
qed

lemma take_binds: "take n (binds k xs) = binds k (take n xs)"
  by (simp add: binds_def take_map)

lemma copyBlock_effects:
  "\<exists>es. effects (snd (copyBlock d blockReq tr)) = effects tr @ es
        \<and> filter is_arg es = [] \<and> \<not> list_ex is_dispatch es"
  by (simp add: copyBlock_def Let_def emit_def)

lemma copyBlock_not_args: "fst (copyBlock d blockReq tr) \<noteq> Inl ErrSettingKernelArguments"
  by (simp add: copyBlock_def Let_def)

lemma dispatch_effects:
  "\<exists>es. effects (snd (dispatch d blockReq tr)) = effects tr @ Call (ndrange tr blockReq) # es
        \<and> filter is_arg es = []"
proof -
  let ?k = "ndrange tr blockReq"
  let ?tr1 = "emit (Call ?k) tr"
  let ?f = "Finish (cmdQueue ?tr1)"
  let ?tr2 = "emit (Call ?f) ?tr1"
  obtain es where es: "effects (snd (copyBlock d blockReq ?tr2)) = effects ?tr2 @ es"
      "filter is_arg es = []"
    using copyBlock_effects [of d blockReq ?tr2] by blast
  show ?thesis
  proof (cases "status d ?k tr \<noteq> SUCCESS")
    case True
    then show ?thesis by (simp add: dispatch_def Let_def emit_def)
  next
    case k: False
    show ?thesis
    proof (cases "status d ?f ?tr1 \<noteq> SUCCESS")
      case True
      then show ?thesis using k by (simp add: dispatch_def Let_def emit_def)
    next
      case False
      then have "effects (snd (dispatch d blockReq tr)) = effects tr @ Call ?k # Call ?f # es"
        using k es(1) by (simp add: dispatch_def Let_def emit_def)
      then show ?thesis using es(2) by simp
    qed
  qed
qed

lemma dispatch_not_args: "fst (dispatch d blockReq tr) \<noteq> Inl ErrSettingKernelArguments"
  by (simp add: dispatch_def Let_def copyBlock_not_args)

lemma not_arg_write [simp]:
  "is_arg (Call (frustumWrite tr sc)) = False" "is_dispatch (Call (frustumWrite tr sc)) = False"
  "is_arg (Call (ndrange tr blockReq)) = False" "is_dispatch (Call (ndrange tr blockReq)) = True"
  by (simp_all add: frustumWrite_def ndrange_def)

lemma setKernelArgs_all:
  assumes "fst (setKernelArgs d k args tr)"
  shows "snd (setKernelArgs d k args tr) = tr\<lparr>effects := effects tr @ binds k args\<rparr>"
proof -
  obtain n logs where "effects (snd (setKernelArgs d k args tr)) = effects tr @ binds k (take n args) @ logs"
     "fst (setKernelArgs d k args tr) \<longrightarrow> n = length args \<and> logs = []"
    using setKernelArgs_effects [of args d k tr] by blast
  then have "effects (snd (setKernelArgs d k args tr)) = effects tr @ binds k args"
    using assms by simp
  then show ?thesis using setKernelArgs_fields [of d k args tr] by simp
qed

lemma not_read [simp]:
  "is_read (Call (frustumWrite tr sc)) = False"
  "is_read (Call (ndrange tr blockReq)) = False"
  "list_ex is_read (binds k xs) = False"
  by (simp_all add: frustumWrite_def ndrange_def binds_def argCall_def list_ex_iff image_iff)

lemma logs_not_read: "list_all is_log logs \<Longrightarrow> \<not> list_ex is_read logs"
proof (induction logs)
  case Nil
  then show ?case by simp
next
  case (Cons e logs)
  then show ?case by (cases e) simp_all
qed

lemma setKernelArgs_first_refusal:
  assumes "i < length args"
      and "cl_status d (effects tr @ binds k (take i args)) (argCall k (args ! i)) \<noteq> SUCCESS"
      and "\<forall>j<i. cl_status d (effects tr @ binds k (take j args)) (argCall k (args ! j)) = SUCCESS"
  shows "setKernelArgs d k args tr =
           (False, tr\<lparr>effects := effects tr @ binds k (take (Suc i) args)
                                    @ [Log (FailedKernelArg (fst (args ! i)))]\<rparr>)"
  using assms
proof (induction args arbitrary: tr i)
  case Nil
  then show ?case by simp
next
  case (Cons a args)
  show ?case
  proof (cases i)
    case 0
    then show ?thesis using Cons.prems by (simp add: status_def binds_def emit_def)
  next
    case (Suc i')
    have first: "status d (argCall k a) tr = SUCCESS"
      using Cons.prems(3) Suc by (auto simp: status_def binds_def)
    let ?tr = "emit (Call (argCall k a)) tr"
    have 1: "i' < length args" using Cons.prems(1) Suc by simp
    have 2: "cl_status d (effects ?tr @ binds k (take i' args)) (argCall k (args ! i')) \<noteq> SUCCESS"
      using Cons.prems(2) Suc by (simp add: emit_def binds_def)
    have 3: "\<forall>j<i'. cl_status d (effects ?tr @ binds k (take j args)) (argCall k (args ! j)) = SUCCESS"
    proof (intro allI impI)
      fix j assume "j < i'"
      then have "Suc j < i" using Suc by simp
      then show "cl_status d (effects ?tr @ binds k (take j args)) (argCall k (args ! j)) = SUCCESS"
        using Cons.prems(3) by (fastforce simp: emit_def binds_def)
    qed
    show ?thesis
      using Cons.IH [OF 1 2 3] first Suc by (simp add: emit_def binds_def)
  qed
qed

lemma refused_iff:
  "fst (setKernelArgs d (traceKernel tr) (kernelArgs tr blockReq sc) (emit (Call (frustumWrite tr sc)) tr))
     = (\<forall>i<10. \<not> refused d tr sc blockReq i)"
proof -
  have len: "length (kernelArgs tr blockReq sc) = 10" by (simp add: kernelArgs_def)
  show ?thesis
    using setKernelArgs_ok_iff [of d "traceKernel tr" "kernelArgs tr blockReq sc"
            "emit (Call (frustumWrite tr sc)) tr"]
    by (simp add: len emit_def take_binds refused_def)
qed

lemma bound_iff:
  "bound d tr sc blockReq
     = (status d (frustumWrite tr sc) tr = SUCCESS \<and> (\<forall>i<10. \<not> refused d tr sc blockReq i))"
  by (auto simp: bound_def list_all_iff)

lemma kernelArgs_index: "i < 10 \<Longrightarrow> fst (kernelArgs tr blockReq sc ! i) = i"
proof -
  assume "i < 10"
  then have "i \<in> {0, 1, 2, 3, 4, 5, 6, 7, 8, 9}" by auto
  then show ?thesis by (auto simp: kernelArgs_def)
qed

lemma process_refused:
  assumes sc: "scene tr = Some sc" and w: "status d (frustumWrite tr sc) tr = SUCCESS"
      and i: "i < 10" and r: "refused d tr sc blockReq i"
      and before: "\<forall>j<i. \<not> refused d tr sc blockReq j"
  shows "process d blockReq tr =
           (Inl ErrSettingKernelArguments,
            tr\<lparr>effects := effects tr @ Call (frustumWrite tr sc)
                      # take (Suc i) (binds (traceKernel tr) (kernelArgs tr blockReq sc))
                      @ [Log (FailedKernelArg i)]\<rparr>)"
proof -
  let ?k = "traceKernel tr"
  let ?args = "kernelArgs tr blockReq sc"
  let ?tr1 = "emit (Call (frustumWrite tr sc)) tr"
  have len: "length ?args = 10" by (simp add: kernelArgs_def)
  have 1: "i < length ?args" using i len by simp
  have 2: "cl_status d (effects ?tr1 @ binds ?k (take i ?args)) (argCall ?k (?args ! i)) \<noteq> SUCCESS"
    using r by (simp add: refused_def emit_def take_binds)
  have 3: "\<forall>j<i. cl_status d (effects ?tr1 @ binds ?k (take j ?args)) (argCall ?k (?args ! j)) = SUCCESS"
    using before by (simp add: refused_def emit_def take_binds)
  have s: "setKernelArgs d ?k ?args ?tr1 =
             (False, ?tr1\<lparr>effects := effects ?tr1 @ binds ?k (take (Suc i) ?args)
                                        @ [Log (FailedKernelArg i)]\<rparr>)"
    using setKernelArgs_first_refusal [OF 1 2 3] kernelArgs_index [OF i, of tr blockReq sc] by simp
  show ?thesis
    using w by (simp add: process_eq [OF sc] s) (simp add: emit_def take_binds)
qed

lemma process_bound:
  assumes sc: "scene tr = Some sc" and b: "bound d tr sc blockReq"
  shows "process d blockReq tr =
           dispatch d blockReq
             (tr\<lparr>effects := effects tr @ Call (frustumWrite tr sc)
                       # binds (traceKernel tr) (kernelArgs tr blockReq sc)\<rparr>)"
proof -
  let ?s = "setKernelArgs d (traceKernel tr) (kernelArgs tr blockReq sc)
              (emit (Call (frustumWrite tr sc)) tr)"
  have ok: "fst ?s" using b by (simp add: refused_iff bound_iff)
  have "snd ?s = tr\<lparr>effects := effects tr @ Call (frustumWrite tr sc)
                       # binds (traceKernel tr) (kernelArgs tr blockReq sc)\<rparr>"
    using setKernelArgs_all [OF ok] by (simp add: emit_def)
  then show ?thesis using ok b by (simp add: process_eq [OF sc] bound_iff)
qed

lemma process_unbound:
  assumes sc: "scene tr = Some sc" and b: "\<not> bound d tr sc blockReq"
  shows "fst (process d blockReq tr) = Inl ErrCopyingDataToDevice
           \<or> fst (process d blockReq tr) = Inl ErrSettingKernelArguments"
    and "\<not> list_ex is_read (new_effects tr (snd (process d blockReq tr)))"
    and "\<not> list_ex is_dispatch (new_effects tr (snd (process d blockReq tr)))"
proof -
  let ?k = "traceKernel tr"
  let ?args = "kernelArgs tr blockReq sc"
  let ?w = "frustumWrite tr sc"
  let ?tr1 = "emit (Call ?w) tr"
  let ?s = "setKernelArgs d ?k ?args ?tr1"
  have "(fst (process d blockReq tr) = Inl ErrCopyingDataToDevice
           \<or> fst (process d blockReq tr) = Inl ErrSettingKernelArguments)
        \<and> \<not> list_ex is_read (new_effects tr (snd (process d blockReq tr)))
        \<and> \<not> list_ex is_dispatch (new_effects tr (snd (process d blockReq tr)))"
  proof (cases "status d ?w tr \<noteq> SUCCESS")
    case True
    then show ?thesis by (simp add: process_eq [OF sc] emit_def new_effects_def)
  next
    case w: False
    then have no: "\<not> fst ?s" using b by (simp add: refused_iff bound_iff)
    obtain n logs where n: "list_all is_log logs"
      "effects (snd ?s) = effects ?tr1 @ binds ?k (take n ?args) @ logs"
      using setKernelArgs_effects [of ?args d ?k ?tr1] by blast
    have "\<not> list_ex is_read (new_effects tr (snd ?s))"
         "\<not> list_ex is_dispatch (new_effects tr (snd ?s))"
      using n(2) logs_not_read [OF n(1)] logs_filters [OF n(1)]
      by (simp_all add: new_effects_def emit_def)
    then show ?thesis using no w by (simp add: process_eq [OF sc])
  qed
  then show "fst (process d blockReq tr) = Inl ErrCopyingDataToDevice
           \<or> fst (process d blockReq tr) = Inl ErrSettingKernelArguments"
    and "\<not> list_ex is_read (new_effects tr (snd (process d blockReq tr)))"
    and "\<not> list_ex is_dispatch (new_effects tr (snd (process d blockReq tr)))"
    by blast+
qed

lemma process_copies:
  assumes sc: "scene tr = Some sc" and c: "reachesCopy d tr sc blockReq"
  shows "process d blockReq tr = copyBlock d blockReq (beforeCopy tr sc blockReq)"
proof -
  let ?tr2 = "tr\<lparr>effects := effects tr @ Call (frustumWrite tr sc)
                       # binds (traceKernel tr) (kernelArgs tr blockReq sc)\<rparr>"
  have b: "bound d tr sc blockReq" using c by (simp add: reachesCopy_def)
  have nd: "ndrange ?tr2 blockReq = ndrange tr blockReq"
    by (simp add: ndrange_def)
  have "dispatch d blockReq ?tr2 = copyBlock d blockReq (beforeCopy tr sc blockReq)"
    using c by (simp add: dispatch_def nd Let_def emit_def beforeCopy_def reachesCopy_def status_def)
  then show ?thesis using process_bound [OF sc b] by simp
qed

lemma process_stops:
  assumes sc: "scene tr = Some sc" and c: "\<not> reachesCopy d tr sc blockReq"
  shows "\<exists>e. fst (process d blockReq tr) = Inl e \<and> e \<noteq> ErrCopyingDataToHost \<and> (\<forall>p. e \<noteq> Panic p)"
    and "\<not> list_ex is_read (new_effects tr (snd (process d blockReq tr)))"
proof -
  have "(\<exists>e. fst (process d blockReq tr) = Inl e \<and> e \<noteq> ErrCopyingDataToHost \<and> (\<forall>p. e \<noteq> Panic p))
        \<and> \<not> list_ex is_read (new_effects tr (snd (process d blockReq tr)))"
  proof (cases "bound d tr sc blockReq")
    case False
    then show ?thesis using process_unbound(1,2) [OF sc False] by auto
  next
    case True
    let ?tr2 = "tr\<lparr>effects := effects tr @ Call (frustumWrite tr sc)
                         # binds (traceKernel tr) (kernelArgs tr blockReq sc)\<rparr>"
    have nd: "ndrange ?tr2 blockReq = ndrange tr blockReq"
      by (simp add: ndrange_def)
    have p: "process d blockReq tr = dispatch d blockReq ?tr2"
      using process_bound [OF sc True] .
    show ?thesis
    proof (cases "status d (ndrange tr blockReq) ?tr2 \<noteq> SUCCESS")
      case True
      then show ?thesis
        unfolding p by (simp add: dispatch_def nd Let_def emit_def new_effects_def)
    next
      case k: False
      then have "status d (Finish (cmdQueue tr)) (emit (Call (ndrange tr blockReq)) ?tr2) \<noteq> SUCCESS"
        using c True by (simp add: reachesCopy_def status_def emit_def)
      then show ?thesis
        unfolding p using k by (simp add: dispatch_def nd Let_def emit_def new_effects_def)
    qed
  qed
  then show "\<exists>e. fst (process d blockReq tr) = Inl e \<and> e \<noteq> ErrCopyingDataToHost \<and> (\<forall>p. e \<noteq> Panic p)"
    and "\<not> list_ex is_read (new_effects tr (snd (process d blockReq tr)))"
    by blast+
qed

subsection \<open>The ready controller\<close>

lemmas run_defs =
  newTracer_def errptr_def errPtr_def SUCCESS_def okDevice_def gpu_def unitScene_def okEnv_def
  freshTracer_def readyTracer_def Setup_def setupKernel_def allocBuffers_def uploadScene_def
  syncScene_def emit_def status_def created_def imageCall_def Let_def

lemma readyTracer_fields:
  "ctx readyTracer = Some 1"
  "cmdQueue readyTracer = Some 2"
  "traceProgram readyTracer = Some 3"
  "traceKernel readyTracer = Some 5"
  "traceOutput readyTracer = Some 6"
  "frustrumCorners readyTracer = Some 7"
  "packedMaterials readyTracer = Some 8"
  "packedPrimitives readyTracer = Some 9"
  "closeChanClosed readyTracer = False"
  "workers readyTracer = [Running]"
  "scene readyTracer = Some unitScene"
  "frameW readyTracer = 2"
  by (simp_all add: run_defs)




lemma new_effects_append: "effects tr' = effects tr @ es \<Longrightarrow> new_effects tr tr' = es"
  by (simp add: new_effects_def)

lemma new_effects_same [simp]: "new_effects tr tr = []"
  by (simp add: new_effects_def)

subsection \<open>process: the kernel arguments\<close>

text \<open>
  C4. For every request that \<open>process\<close> handles on a controller with a scene: the ten
  bindings are, in this order, index 0 the output buffer, 1 the frustum buffer, 2 the
  packed primitives, 3 the packed materials, 4 the primitive count, 5 the eye position (16
  bytes), 6 the row offset, 7 the samples per pixel, 8 the exposure, 9 the seed. When the
  frustum upload fails nothing is bound. Otherwise, when argument \<open>i\<close> is the first that
  the device refuses, \<open>process\<close> makes the bindings 0 to \<open>i\<close> in this order, logs the
  failure and returns \<open>ErrSettingKernelArguments\<close> with no other call: the kernel is not
  dispatched. When no argument is refused, \<open>process\<close> makes the ten bindings in this
  order, then dispatches the kernel, and binds nothing afterwards.
\<close>

theorem process_binds_arguments_in_order:
  assumes sc: "scene tr = Some sc"
  shows "binds (traceKernel tr) (kernelArgs tr blockReq sc)
           = [Call (SetKernelArg (traceKernel tr) 0 8 (ArgMem (traceOutput tr))),
              Call (SetKernelArg (traceKernel tr) 1 8 (ArgMem (frustrumCorners tr))),
              Call (SetKernelArg (traceKernel tr) 2 8 (ArgMem (packedPrimitives tr))),
              Call (SetKernelArg (traceKernel tr) 3 8 (ArgMem (packedMaterials tr))),
              Call (SetKernelArg (traceKernel tr) 4 4 (ArgInt (int (length (Primitives sc))))),
              Call (SetKernelArg (traceKernel tr) 5 16 (ArgVec (Position (Camera sc)))),
              Call (SetKernelArg (traceKernel tr) 6 4 (ArgU32 (BlockY blockReq))),
              Call (SetKernelArg (traceKernel tr) 7 4 (ArgU32 (SamplesPerPixel blockReq))),
              Call (SetKernelArg (traceKernel tr) 8 4 (ArgF32 (Exposure blockReq))),
              Call (SetKernelArg (traceKernel tr) 9 4 (ArgU32 (Seed blockReq)))]
       \<and> (status d (frustumWrite tr sc) tr \<noteq> SUCCESS \<longrightarrow>
            process d blockReq tr
              = (Inl ErrCopyingDataToDevice,
                 tr\<lparr>effects := effects tr @ [Call (frustumWrite tr sc), Log FailedFrustrumWrite]\<rparr>))
       \<and> (status d (frustumWrite tr sc) tr = SUCCESS \<longrightarrow>
            (\<forall>i<10. refused d tr sc blockReq i \<and> (\<forall>j<i. \<not> refused d tr sc blockReq j) \<longrightarrow>
               process d blockReq tr
                 = (Inl ErrSettingKernelArguments,
                    tr\<lparr>effects := effects tr @ Call (frustumWrite tr sc)
                          # take (Suc i) (binds (traceKernel tr) (kernelArgs tr blockReq sc))
                          @ [Log (FailedKernelArg i)]\<rparr>))
          \<and> ((\<forall>i<10. \<not> refused d tr sc blockReq i) \<longrightarrow>
               fst (process d blockReq tr) \<noteq> Inl ErrSettingKernelArguments
               \<and> (\<exists>es. new_effects tr (snd (process d blockReq tr))
                          = Call (frustumWrite tr sc)
                              # binds (traceKernel tr) (kernelArgs tr blockReq sc)
                              @ Call (ndrange tr blockReq) # es
                        \<and> filter is_arg es = [])))
       \<and> (fst (process d blockReq tr) = Inl ErrSettingKernelArguments
            \<longrightarrow> \<not> list_ex is_dispatch (new_effects tr (snd (process d blockReq tr))))"
proof -
  let ?k = "traceKernel tr"
  let ?args = "kernelArgs tr blockReq sc"
  let ?w = "frustumWrite tr sc"
  let ?tr2 = "tr\<lparr>effects := effects tr @ Call ?w # binds ?k ?args\<rparr>"
  have list: "binds ?k ?args
           = [Call (SetKernelArg (traceKernel tr) 0 8 (ArgMem (traceOutput tr))),
              Call (SetKernelArg (traceKernel tr) 1 8 (ArgMem (frustrumCorners tr))),
              Call (SetKernelArg (traceKernel tr) 2 8 (ArgMem (packedPrimitives tr))),
              Call (SetKernelArg (traceKernel tr) 3 8 (ArgMem (packedMaterials tr))),
              Call (SetKernelArg (traceKernel tr) 4 4 (ArgInt (int (length (Primitives sc))))),
              Call (SetKernelArg (traceKernel tr) 5 16 (ArgVec (Position (Camera sc)))),
              Call (SetKernelArg (traceKernel tr) 6 4 (ArgU32 (BlockY blockReq))),
              Call (SetKernelArg (traceKernel tr) 7 4 (ArgU32 (SamplesPerPixel blockReq))),
              Call (SetKernelArg (traceKernel tr) 8 4 (ArgF32 (Exposure blockReq))),
              Call (SetKernelArg (traceKernel tr) 9 4 (ArgU32 (Seed blockReq)))]"
    by (simp add: binds_def kernelArgs_def argCall_def)
  have fail: "status d ?w tr \<noteq> SUCCESS \<longrightarrow>
            process d blockReq tr
              = (Inl ErrCopyingDataToDevice, tr\<lparr>effects := effects tr @ [Call ?w, Log FailedFrustrumWrite]\<rparr>)"
    by (simp add: process_eq [OF sc] emit_def)
  have first: "status d ?w tr = SUCCESS \<longrightarrow>
            (\<forall>i<10. refused d tr sc blockReq i \<and> (\<forall>j<i. \<not> refused d tr sc blockReq j) \<longrightarrow>
               process d blockReq tr
                 = (Inl ErrSettingKernelArguments,
                    tr\<lparr>effects := effects tr @ Call ?w # take (Suc i) (binds ?k ?args)
                          @ [Log (FailedKernelArg i)]\<rparr>))"
    using process_refused [OF sc] by blast
  have all: "status d ?w tr = SUCCESS \<longrightarrow> (\<forall>i<10. \<not> refused d tr sc blockReq i) \<longrightarrow>
               fst (process d blockReq tr) \<noteq> Inl ErrSettingKernelArguments
               \<and> (\<exists>es. new_effects tr (snd (process d blockReq tr))
                          = Call ?w # binds ?k ?args @ Call (ndrange tr blockReq) # es
                        \<and> filter is_arg es = [])"
  proof (intro impI)
    assume "status d ?w tr = SUCCESS" "\<forall>i<10. \<not> refused d tr sc blockReq i"
    then have b: "bound d tr sc blockReq" by (simp add: bound_iff)
    have p: "process d blockReq tr = dispatch d blockReq ?tr2"
      using process_bound [OF sc b] .
    obtain es where es: "effects (snd (dispatch d blockReq ?tr2))
                           = effects ?tr2 @ Call (ndrange ?tr2 blockReq) # es"
        "filter is_arg es = []"
      using dispatch_effects [of d blockReq ?tr2] by blast
    have nd: "ndrange ?tr2 blockReq = ndrange tr blockReq"
      by (simp add: ndrange_def)
    have "new_effects tr (snd (process d blockReq tr))
            = Call ?w # binds ?k ?args @ Call (ndrange tr blockReq) # es"
      unfolding p using es(1) nd by (simp add: new_effects_def)
    moreover have "fst (process d blockReq tr) \<noteq> Inl ErrSettingKernelArguments"
      unfolding p by (rule dispatch_not_args)
    ultimately show "fst (process d blockReq tr) \<noteq> Inl ErrSettingKernelArguments
               \<and> (\<exists>es. new_effects tr (snd (process d blockReq tr))
                          = Call ?w # binds ?k ?args @ Call (ndrange tr blockReq) # es
                        \<and> filter is_arg es = [])"
      using es(2) by blast
  qed
  have nodispatch: "fst (process d blockReq tr) = Inl ErrSettingKernelArguments
            \<longrightarrow> \<not> list_ex is_dispatch (new_effects tr (snd (process d blockReq tr)))"
  proof (cases "bound d tr sc blockReq")
    case True
    have "fst (process d blockReq tr) \<noteq> Inl ErrSettingKernelArguments"
      unfolding process_bound [OF sc True] by (rule dispatch_not_args)
    then show ?thesis by simp
  next
    case False
    then show ?thesis using process_unbound(3) [OF sc False] by simp
  qed
  show ?thesis using list fail first all nodispatch by blast
qed

theorem process_binds_arguments_in_order_witness:
  "scene readyTracer = Some unitScene
   \<and> process stubbornDevice lowerRow readyTracer
       = (Inl ErrSettingKernelArguments,
          readyTracer\<lparr>effects := effects readyTracer
             @ [Call (frustumWrite readyTracer unitScene),
                Call (SetKernelArg (Some 5) 0 8 (ArgMem (Some 6))),
                Call (SetKernelArg (Some 5) 1 8 (ArgMem (Some 7))),
                Call (SetKernelArg (Some 5) 2 8 (ArgMem (Some 9))),
                Call (SetKernelArg (Some 5) 3 8 (ArgMem (Some 8))),
                Log (FailedKernelArg 3)]\<rparr>)
   \<and> filter is_arg (new_effects readyTracer (snd (process okDevice lowerRow readyTracer)))
       = [Call (SetKernelArg (Some 5) 0 8 (ArgMem (Some 6))),
          Call (SetKernelArg (Some 5) 1 8 (ArgMem (Some 7))),
          Call (SetKernelArg (Some 5) 2 8 (ArgMem (Some 9))),
          Call (SetKernelArg (Some 5) 3 8 (ArgMem (Some 8))),
          Call (SetKernelArg (Some 5) 4 4 (ArgInt 1)),
          Call (SetKernelArg (Some 5) 5 16 (ArgVec [0, 0, 0, 0])),
          Call (SetKernelArg (Some 5) 6 4 (ArgU32 1)),
          Call (SetKernelArg (Some 5) 7 4 (ArgU32 4)),
          Call (SetKernelArg (Some 5) 8 4 (ArgF32 0)),
          Call (SetKernelArg (Some 5) 9 4 (ArgU32 42))]"
proof -
  have sc: "scene readyTracer = Some unitScene"
    by (rule readyTracer_fields(11))
  note t = process_binds_arguments_in_order [OF sc, of lowerRow stubbornDevice]
  note u = process_binds_arguments_in_order [OF sc, of lowerRow okDevice]
  have w: "status stubbornDevice (frustumWrite readyTracer unitScene) readyTracer = SUCCESS"
    by (simp add: status_def stubbornDevice_def frustumWrite_def)
  have r: "refused stubbornDevice readyTracer unitScene lowerRow 3"
    by (simp add: refused_def stubbornDevice_def kernelArgs_def argCall_def SUCCESS_def)
  have n: "\<forall>j<3. \<not> refused stubbornDevice readyTracer unitScene lowerRow j"
    by (simp add: refused_def stubbornDevice_def kernelArgs_def argCall_def SUCCESS_def
          All_less_Suc eval_nat_numeral)
  have p: "process stubbornDevice lowerRow readyTracer
       = (Inl ErrSettingKernelArguments,
          readyTracer\<lparr>effects := effects readyTracer @ Call (frustumWrite readyTracer unitScene)
              # take (Suc 3) (binds (traceKernel readyTracer) (kernelArgs readyTracer lowerRow unitScene))
              @ [Log (FailedKernelArg 3)]\<rparr>)"
  proof -
    have "\<forall>i<10. refused stubbornDevice readyTracer unitScene lowerRow i
              \<and> (\<forall>j<i. \<not> refused stubbornDevice readyTracer unitScene lowerRow j) \<longrightarrow>
            process stubbornDevice lowerRow readyTracer
              = (Inl ErrSettingKernelArguments,
                 readyTracer\<lparr>effects := effects readyTracer @ Call (frustumWrite readyTracer unitScene)
                   # take (Suc i) (binds (traceKernel readyTracer) (kernelArgs readyTracer lowerRow unitScene))
                   @ [Log (FailedKernelArg i)]\<rparr>)"
      using t w by blast
    moreover have "(3 :: nat) < 10" by simp
    ultimately show ?thesis using r n by blast
  qed
  have l: "binds (traceKernel readyTracer) (kernelArgs readyTracer lowerRow unitScene)
       = [Call (SetKernelArg (Some 5) 0 8 (ArgMem (Some 6))),
          Call (SetKernelArg (Some 5) 1 8 (ArgMem (Some 7))),
          Call (SetKernelArg (Some 5) 2 8 (ArgMem (Some 9))),
          Call (SetKernelArg (Some 5) 3 8 (ArgMem (Some 8))),
          Call (SetKernelArg (Some 5) 4 4 (ArgInt 1)),
          Call (SetKernelArg (Some 5) 5 16 (ArgVec [0, 0, 0, 0])),
          Call (SetKernelArg (Some 5) 6 4 (ArgU32 1)),
          Call (SetKernelArg (Some 5) 7 4 (ArgU32 4)),
          Call (SetKernelArg (Some 5) 8 4 (ArgF32 0)),
          Call (SetKernelArg (Some 5) 9 4 (ArgU32 42))]"
    by (simp add: binds_def kernelArgs_def argCall_def readyTracer_fields unitScene_def lowerRow_def)
  have ok: "status okDevice (frustumWrite readyTracer unitScene) readyTracer = SUCCESS"
      "\<forall>i<10. \<not> refused okDevice readyTracer unitScene lowerRow i"
    by (simp_all add: status_def refused_def okDevice_def)
  obtain es where es: "new_effects readyTracer (snd (process okDevice lowerRow readyTracer))
       = Call (frustumWrite readyTracer unitScene)
           # binds (traceKernel readyTracer) (kernelArgs readyTracer lowerRow unitScene)
           @ Call (ndrange readyTracer lowerRow) # es" "filter is_arg es = []"
    using u ok by blast
  have f: "filter is_arg (new_effects readyTracer (snd (process okDevice lowerRow readyTracer)))
             = binds (traceKernel readyTracer) (kernelArgs readyTracer lowerRow unitScene)"
    unfolding es(1) using es(2) by simp
  show ?thesis
    using sc p f unfolding l by simp
qed

subsection \<open>process: the copy back\<close>

lemma copyBlock_cases:
  fixes tr :: "('prim, 'p) clTracer" and blockReq :: BlockRequest
  defines "i \<equiv> unat (drop_bit 2 (readOffset tr blockReq))"
      and "n \<equiv> unat (blockSizeBytes tr blockReq) div 4"
      and "rt \<equiv> RenderTarget blockReq"
  shows "copyBlock d blockReq tr =
     (if length rt \<le> i then (Inl (Panic IndexOutOfRange), tr)
      else if status d (readCall tr blockReq) tr \<noteq> SUCCESS
      then (Inl ErrCopyingDataToHost,
            tr\<lparr>effects := effects tr @
               [Call (readCall tr blockReq),
                Log (CopyToHostFailed (BlockY blockReq) (BlockH blockReq) (readOffset tr blockReq)
                       (blockSizeBytes tr blockReq) (status d (readCall tr blockReq) tr))]\<rparr>)
      else (Inr (take i rt @ map (cl_buffer d (effects tr)) [i ..< min (i + n) (length rt)]
                   @ drop (i + n) rt),
            tr\<lparr>effects := effects tr @ [Call (readCall tr blockReq)]\<rparr>))"
  by (simp add: copyBlock_def readCall_def Let_def emit_def i_def n_def rt_def)

lemma beforeCopy_fields [simp]:
  "readOffset (beforeCopy tr sc blockReq) b = readOffset tr b"
  "blockSizeBytes (beforeCopy tr sc blockReq) b = blockSizeBytes tr b"
  "readCall (beforeCopy tr sc blockReq) b = readCall tr b"
  by (simp_all add: beforeCopy_def readOffset_def blockSizeBytes_def readCall_def)

lemma unat_quarter: "unat (drop_bit 2 (x :: 64 word)) = unat x div 4"
  by (simp add: drop_bit_eq_div unat_div)

lemma offsets_in_range:
  assumes "16 * unat (frameW tr) * unat (BlockY blockReq) < 2 ^ 32"
      and "16 * unat (frameW tr) * unat (BlockH blockReq) < 2 ^ 32"
  shows "unat (readOffset tr blockReq) = 4 * 4 * unat (frameW tr) * unat (BlockY blockReq)"
    and "unat (blockSizeBytes tr blockReq) = 4 * 4 * unat (frameW tr) * unat (BlockH blockReq)"
    and "unat (drop_bit 2 (readOffset tr blockReq)) = unat (frameW tr) * 4 * unat (BlockY blockReq)"
    and "unat (blockSizeBytes tr blockReq) div 4 = unat (frameW tr) * 4 * unat (BlockH blockReq)"
proof -
  have "unat (frameW tr) * 16 * unat (BlockY blockReq) < 2 ^ 32"
    using assms(1) by (simp add: ac_simps)
  then have a: "unat (readOffset tr blockReq) = unat (frameW tr) * 16 * unat (BlockY blockReq)"
    unfolding readOffset_def unat_widen unat_scaled by (rule mod_less)
  have "unat (frameW tr) * 16 * unat (BlockH blockReq) < 2 ^ 32"
    using assms(2) by (simp add: ac_simps)
  then have b: "unat (blockSizeBytes tr blockReq) = unat (frameW tr) * 16 * unat (BlockH blockReq)"
    unfolding blockSizeBytes_def unat_widen unat_scaled by (rule mod_less)
  show "unat (readOffset tr blockReq) = 4 * 4 * unat (frameW tr) * unat (BlockY blockReq)"
    using a by simp
  show "unat (blockSizeBytes tr blockReq) = 4 * 4 * unat (frameW tr) * unat (BlockH blockReq)"
    using b by simp
  show "unat (drop_bit 2 (readOffset tr blockReq)) = unat (frameW tr) * 4 * unat (BlockY blockReq)"
    unfolding unat_quarter a by simp
  show "unat (blockSizeBytes tr blockReq) div 4 = unat (frameW tr) * 4 * unat (BlockH blockReq)"
    unfolding b by simp
qed

lemma patched_list:
  fixes rt :: "'a list" and f :: "nat \<Rightarrow> 'a" and i n :: nat
  assumes "i < length rt"
  defines "rt' \<equiv> take i rt @ map f [i ..< min (i + n) (length rt)] @ drop (i + n) rt"
  shows "length rt' = length rt"
    and "\<forall>j<length rt'. j < i \<or> i + n \<le> j \<longrightarrow> rt' ! j = rt ! j"
    and "\<forall>j<length rt'. i \<le> j \<and> j < i + n \<longrightarrow> rt' ! j = f j"
proof -
  show len: "length rt' = length rt"
    using assms(1) by (simp add: rt'_def min_def)
  have l: "length (take i rt @ map f [i ..< min (i + n) (length rt)]) = min (i + n) (length rt)"
    using assms(1) by (simp add: min_def)
  have split: "rt' = (take i rt @ map f [i ..< min (i + n) (length rt)]) @ drop (i + n) rt"
    by (simp add: rt'_def)
  show "\<forall>j<length rt'. j < i \<or> i + n \<le> j \<longrightarrow> rt' ! j = rt ! j"
  proof (intro allI impI)
    fix j assume j: "j < length rt'" "j < i \<or> i + n \<le> j"
    show "rt' ! j = rt ! j"
    proof (cases "j < i")
      case True
      then show ?thesis using assms(1) by (simp add: rt'_def nth_append)
    next
      case False
      then have ge: "i + n \<le> j" using j(2) by simp
      then have fits: "i + n \<le> length rt" using j(1) len by simp
      then have "min (i + n) (length rt) = i + n" by simp
      then have "rt' ! j = drop (i + n) rt ! (j - (i + n))"
        using l ge split by (metis leD nth_append)
      then show ?thesis using fits ge by simp
    qed
  qed
  show "\<forall>j<length rt'. i \<le> j \<and> j < i + n \<longrightarrow> rt' ! j = f j"
  proof (intro allI impI)
    fix j assume j: "j < length rt'" "i \<le> j \<and> j < i + n"
    then have m: "j < min (i + n) (length rt)" using len by simp
    then have "rt' ! j = (take i rt @ map f [i ..< min (i + n) (length rt)]) ! j"
      using l split by (metis nth_append)
    also have "\<dots> = map f [i ..< min (i + n) (length rt)] ! (j - i)"
      using j(2) assms(1) by (simp add: nth_append)
    also have "\<dots> = f j"
    proof -
      have k: "j - i < min (i + n) (length rt) - i" using j(2) m by arith
      then have "[i ..< min (i + n) (length rt)] ! (j - i) = j" using j(2) by simp
      then show ?thesis using k by simp
    qed
    finally show "rt' ! j = f j" .
  qed
qed

lemma beforeCopy_new [simp]:
  "\<not> list_ex is_read (new_effects tr (beforeCopy tr sc blockReq))"
  "effects (beforeCopy tr sc blockReq) \<noteq> []"
  by (simp_all add: beforeCopy_def new_effects_def)

lemma new_effects_more:
  "effects tr' = effects tr0 @ es \<Longrightarrow> new_effects tr (tr'\<lparr>effects := effects tr' @ fs\<rparr>) = drop (length (effects tr)) (effects tr0 @ es @ fs)"
  by (simp add: new_effects_def)

lemma offsets_modulo:
  "unat (readOffset tr blockReq) = (unat (frameW tr) * 16 * unat (BlockY blockReq)) mod 2 ^ 32"
  "unat (blockSizeBytes tr blockReq) = (unat (frameW tr) * 16 * unat (BlockH blockReq)) mod 2 ^ 32"
proof -
  show "unat (readOffset tr blockReq) = (unat (frameW tr) * 16 * unat (BlockY blockReq)) mod 2 ^ 32"
    unfolding readOffset_def unat_widen by (rule unat_scaled)
  show "unat (blockSizeBytes tr blockReq) = (unat (frameW tr) * 16 * unat (BlockH blockReq)) mod 2 ^ 32"
    unfolding blockSizeBytes_def unat_widen by (rule unat_scaled)
qed

lemma reads_of_process:
  assumes sc: "scene tr = Some sc"
  shows "filter is_read (new_effects tr (snd (process d blockReq tr)))
           = (if reachesCopy d tr sc blockReq
                 \<and> unat (drop_bit 2 (readOffset tr blockReq)) < length (RenderTarget blockReq)
              then [Call (readCall tr blockReq)] else [])"
proof (cases "reachesCopy d tr sc blockReq")
  case False
  have "\<not> list_ex is_read (new_effects tr (snd (process d blockReq tr)))"
    using process_stops(2) [OF sc False] .
  then have "filter is_read (new_effects tr (snd (process d blockReq tr))) = []"
    by (simp add: filter_empty_conv list_ex_iff)
  then show ?thesis using False by simp
next
  case True
  let ?S = "beforeCopy tr sc blockReq"
  define es where "es = Call (frustumWrite tr sc) # binds (traceKernel tr) (kernelArgs tr blockReq sc)
                          @ [Call (ndrange tr blockReq), Call (Finish (cmdQueue tr))]"
  have p: "process d blockReq tr = copyBlock d blockReq ?S"
    using process_copies [OF sc True] .
  have e: "effects ?S = effects tr @ es"
    by (simp add: beforeCopy_def es_def)
  have nr: "filter is_read es = []"
    by (simp add: es_def filter_empty_conv binds_def argCall_def frustumWrite_def ndrange_def image_iff)
  have r: "is_read (Call (readCall tr blockReq))"
    by (simp add: readCall_def)
  show ?thesis
  proof (cases "unat (drop_bit 2 (readOffset tr blockReq)) < length (RenderTarget blockReq)")
    case False
    then have "snd (process d blockReq tr) = ?S"
      unfolding p by (simp add: copyBlock_cases)
    then have "new_effects tr (snd (process d blockReq tr)) = es"
      using e by (simp add: new_effects_def)
    then show ?thesis using False nr by simp
  next
    case inside: True
    have "\<exists>logs. effects (snd (process d blockReq tr))
                    = effects tr @ es @ Call (readCall tr blockReq) # logs
                  \<and> filter is_read logs = []"
    proof (cases "status d (readCall tr blockReq) ?S \<noteq> SUCCESS")
      case True
      then have "effects (snd (process d blockReq tr))
                   = effects ?S @ [Call (readCall tr blockReq),
                        Log (CopyToHostFailed (BlockY blockReq) (BlockH blockReq) (readOffset tr blockReq)
                               (blockSizeBytes tr blockReq) (status d (readCall tr blockReq) ?S))]"
        unfolding p using inside by (simp add: copyBlock_cases)
      then have "effects (snd (process d blockReq tr))
                   = effects tr @ es @ Call (readCall tr blockReq)
                       # [Log (CopyToHostFailed (BlockY blockReq) (BlockH blockReq) (readOffset tr blockReq)
                               (blockSizeBytes tr blockReq) (status d (readCall tr blockReq) ?S))]"
        unfolding e by simp
      then show ?thesis by (intro exI [of _ "[Log (CopyToHostFailed (BlockY blockReq) (BlockH blockReq) (readOffset tr blockReq)
                               (blockSizeBytes tr blockReq) (status d (readCall tr blockReq) ?S))]"]) simp
    next
      case False
      then have "effects (snd (process d blockReq tr)) = effects ?S @ [Call (readCall tr blockReq)]"
        unfolding p using inside by (simp add: copyBlock_cases)
      then have "effects (snd (process d blockReq tr)) = effects tr @ es @ Call (readCall tr blockReq) # []"
        unfolding e by simp
      then show ?thesis by (intro exI [of _ "[]"]) simp
    qed
    then obtain logs where l: "effects (snd (process d blockReq tr))
                    = effects tr @ es @ Call (readCall tr blockReq) # logs"
        "filter is_read logs = []"
      by blast
    have "new_effects tr (snd (process d blockReq tr)) = es @ Call (readCall tr blockReq) # logs"
      unfolding new_effects_def l(1) by simp
    then have "filter is_read (new_effects tr (snd (process d blockReq tr))) = [Call (readCall tr blockReq)]"
      using l(2) nr r by simp
    then show ?thesis using True inside by simp
  qed
qed

text \<open>
  C10. The read that \<open>process\<close> makes (one, when it comes to the copy back and the
  index into the render target is in range; none otherwise) is made at byte offset
  \<open>readOffset\<close> for \<open>blockSizeBytes\<close> bytes. The two are products of 32-bit unsigned
  values, widened to 64 bits afterwards: they are \<open>frameW * 16 * BlockY\<close> and
  \<open>frameW * 16 * BlockH\<close> modulo \<open>2 ^ 32\<close>, and whenever such a product reaches
  \<open>2 ^ 32\<close> the value passed to the device is smaller than the product.
\<close>

theorem copy_offsets_modulo:
  assumes sc: "scene tr = Some sc"
  shows "filter is_read (new_effects tr (snd (process d blockReq tr)))
           = (if reachesCopy d tr sc blockReq
                 \<and> unat (drop_bit 2 (readOffset tr blockReq)) < length (RenderTarget blockReq)
              then [Call (EnqueueReadBuffer (cmdQueue tr) (traceOutput tr) (readOffset tr blockReq)
                            (blockSizeBytes tr blockReq) (unat (drop_bit 2 (readOffset tr blockReq))))]
              else [])
       \<and> unat (readOffset tr blockReq) = (unat (frameW tr) * 16 * unat (BlockY blockReq)) mod 2 ^ 32
       \<and> unat (blockSizeBytes tr blockReq)
           = (unat (frameW tr) * 16 * unat (BlockH blockReq)) mod 2 ^ 32
       \<and> (2 ^ 32 \<le> unat (frameW tr) * 16 * unat (BlockY blockReq)
            \<longrightarrow> unat (readOffset tr blockReq) < unat (frameW tr) * 16 * unat (BlockY blockReq))
       \<and> (2 ^ 32 \<le> unat (frameW tr) * 16 * unat (BlockH blockReq)
            \<longrightarrow> unat (blockSizeBytes tr blockReq)
                  < unat (frameW tr) * 16 * unat (BlockH blockReq))"
proof -
  have c: "\<And>n::nat. 2 ^ 32 \<le> n \<Longrightarrow> n mod 2 ^ 32 < n"
    by (metis mod_less_divisor less_le_trans zero_less_numeral zero_less_power)
  have r: "filter is_read (new_effects tr (snd (process d blockReq tr)))
           = (if reachesCopy d tr sc blockReq
                 \<and> unat (drop_bit 2 (readOffset tr blockReq)) < length (RenderTarget blockReq)
              then [Call (EnqueueReadBuffer (cmdQueue tr) (traceOutput tr) (readOffset tr blockReq)
                            (blockSizeBytes tr blockReq) (unat (drop_bit 2 (readOffset tr blockReq))))]
              else [])"
    using reads_of_process [OF sc, of d blockReq] by (simp add: readCall_def)
  show ?thesis
    using r offsets_modulo [of tr blockReq] c by simp
qed

lemma wideTracer_fields:
  "cmdQueue wideTracer = Some 2"
  "traceKernel wideTracer = Some 5"
  "traceOutput wideTracer = Some 6"
  "frustrumCorners wideTracer = Some 7"
  "packedMaterials wideTracer = Some 8"
  "packedPrimitives wideTracer = Some 9"
  "scene wideTracer = Some unitScene"
  by (simp_all add: wideTracer_def readyTracer_fields)

lemma okDevice_reachesCopy: "reachesCopy okDevice tr sc blockReq"
  by (simp add: reachesCopy_def bound_def refused_def status_def okDevice_def list_all_iff)

theorem copy_offsets_modulo_witness:
  "scene wideTracer = Some unitScene
   \<and> filter is_read (new_effects wideTracer (snd (process okDevice rowOne wideTracer)))
       = [Call (EnqueueReadBuffer (Some 2) (Some 6) 16 16 4)]
   \<and> unat (frameW wideTracer) * 16 * unat (BlockY rowOne) = 4294967312
   \<and> unat (frameW wideTracer) * 16 * unat (BlockH rowOne) = 4294967312"
proof -
  have sc: "scene wideTracer = Some unitScene"
    by (rule wideTracer_fields(7))
  have o: "readOffset wideTracer rowOne = 16" "blockSizeBytes wideTracer rowOne = 16"
    by (simp_all add: readOffset_def blockSizeBytes_def wideTracer_frameW rowOne_def)
  have i: "unat (drop_bit 2 (16 :: 64 word)) = 4"
    by (simp add: unat_quarter)
  show ?thesis
    using copy_offsets_modulo [OF sc, of okDevice rowOne] sc okDevice_reachesCopy [of wideTracer unitScene rowOne]
    by (simp add: o i wideTracer_fields wideTracer_frameW) (simp add: rowOne_def)
qed

text \<open>
  C3, amended. When \<open>16 * w * y\<close> and \<open>16 * w * h\<close> are below \<open>2 ^ 32\<close>: a request is
  processed with success exactly when \<open>process\<close> comes to the copy back, the float
  index \<open>w * 4 * y\<close> lies in the render target and the read returns \<^verbatim>\<open>cl.SUCCESS\<close>, and it
  gives \<open>ErrCopyingDataToHost\<close> exactly when the read is made and does not. The read asks
  for \<open>4 * 4 * w * h\<close> bytes at byte offset \<open>4 * 4 * w * y\<close> of the output buffer, into
  the render target from float index \<open>w * 4 * y\<close>, and it is the last call of a request
  that succeeds. After it the render target has its length, the elements from
  \<open>w * 4 * y\<close> to \<open>w * 4 * y + w * 4 * h\<close> that it has are those of the device buffer, and
  every other element is as before; it has all of these elements when it is at least
  \<open>w * 4 * (y + h)\<close> floats long.
\<close>

theorem copy_back_without_overflow:
  assumes sc: "scene tr = Some sc" and p: "process d blockReq tr = (r, tr')"
      and oy: "16 * unat (frameW tr) * unat (BlockY blockReq) < 2 ^ 32"
      and oh: "16 * unat (frameW tr) * unat (BlockH blockReq) < 2 ^ 32"
  shows "((\<exists>rt'. r = Inr rt')
            \<longleftrightarrow> reachesCopy d tr sc blockReq
                \<and> unat (frameW tr) * 4 * unat (BlockY blockReq) < length (RenderTarget blockReq)
                \<and> status d (readCall tr blockReq) (beforeCopy tr sc blockReq) = SUCCESS)
       \<and> (r = Inl ErrCopyingDataToHost
            \<longleftrightarrow> reachesCopy d tr sc blockReq
                \<and> unat (frameW tr) * 4 * unat (BlockY blockReq) < length (RenderTarget blockReq)
                \<and> status d (readCall tr blockReq) (beforeCopy tr sc blockReq) \<noteq> SUCCESS)
       \<and> readCall tr blockReq
           = EnqueueReadBuffer (cmdQueue tr) (traceOutput tr) (readOffset tr blockReq)
               (blockSizeBytes tr blockReq) (unat (frameW tr) * 4 * unat (BlockY blockReq))
       \<and> unat (readOffset tr blockReq) = 4 * 4 * unat (frameW tr) * unat (BlockY blockReq)
       \<and> unat (blockSizeBytes tr blockReq) = 4 * 4 * unat (frameW tr) * unat (BlockH blockReq)
       \<and> (\<forall>rt'. r = Inr rt' \<longrightarrow>
              effects tr' = effects (beforeCopy tr sc blockReq) @ [Call (readCall tr blockReq)]
            \<and> length rt' = length (RenderTarget blockReq)
            \<and> (\<forall>j<length rt'.
                   (unat (frameW tr) * 4 * unat (BlockY blockReq) \<le> j
                    \<and> j < unat (frameW tr) * 4 * unat (BlockY blockReq)
                           + unat (frameW tr) * 4 * unat (BlockH blockReq)
                    \<longrightarrow> rt' ! j = cl_buffer d (effects (beforeCopy tr sc blockReq)) j)
                 \<and> (j < unat (frameW tr) * 4 * unat (BlockY blockReq)
                    \<or> unat (frameW tr) * 4 * unat (BlockY blockReq)
                         + unat (frameW tr) * 4 * unat (BlockH blockReq) \<le> j
                    \<longrightarrow> rt' ! j = RenderTarget blockReq ! j))
            \<and> (unat (frameW tr) * 4 * unat (BlockY blockReq)
                  + unat (frameW tr) * 4 * unat (BlockH blockReq) \<le> length (RenderTarget blockReq)
                \<longrightarrow> (\<forall>j. unat (frameW tr) * 4 * unat (BlockY blockReq) \<le> j
                          \<and> j < unat (frameW tr) * 4 * unat (BlockY blockReq)
                                 + unat (frameW tr) * 4 * unat (BlockH blockReq)
                        \<longrightarrow> j < length rt'
                            \<and> rt' ! j = cl_buffer d (effects (beforeCopy tr sc blockReq)) j)))"
proof -
  let ?S = "beforeCopy tr sc blockReq"
  let ?rt = "RenderTarget blockReq"
  define i where "i = unat (frameW tr) * 4 * unat (BlockY blockReq)"
  define n where "n = unat (frameW tr) * 4 * unat (BlockH blockReq)"
  define ok where "ok = (status d (readCall tr blockReq) ?S = SUCCESS)"
  define f where "f = cl_buffer d (effects ?S)"
  note off = offsets_in_range [OF oy oh]
  have i: "unat (drop_bit 2 (readOffset tr blockReq)) = i"
    using off(3) by (simp add: i_def)
  have n: "unat (blockSizeBytes tr blockReq) div 4 = n"
    using off(4) by (simp add: n_def)
  have call: "readCall tr blockReq
           = EnqueueReadBuffer (cmdQueue tr) (traceOutput tr) (readOffset tr blockReq)
               (blockSizeBytes tr blockReq) i"
    by (simp add: readCall_def i)
  have main: "((\<exists>rt'. r = Inr rt') \<longleftrightarrow> reachesCopy d tr sc blockReq \<and> i < length ?rt \<and> ok)
       \<and> (r = Inl ErrCopyingDataToHost \<longleftrightarrow> reachesCopy d tr sc blockReq \<and> i < length ?rt \<and> \<not> ok)
       \<and> (\<forall>rt'. r = Inr rt' \<longrightarrow>
              effects tr' = effects ?S @ [Call (readCall tr blockReq)]
            \<and> length rt' = length ?rt
            \<and> (\<forall>j<length rt'. (i \<le> j \<and> j < i + n \<longrightarrow> rt' ! j = f j)
                               \<and> (j < i \<or> i + n \<le> j \<longrightarrow> rt' ! j = ?rt ! j)))"
  proof (cases "reachesCopy d tr sc blockReq")
    case False
    obtain e where e: "r = Inl e" "e \<noteq> ErrCopyingDataToHost"
      using process_stops(1) [OF sc False] p by auto
    then show ?thesis using False by simp
  next
    case True
    have c: "copyBlock d blockReq ?S = (r, tr')"
      using process_copies [OF sc True] p by simp
    show ?thesis
    proof (cases "length ?rt \<le> i")
      case out: True
      then have "r = Inl (Panic IndexOutOfRange)"
        using c by (simp add: copyBlock_cases i)
      then show ?thesis using out by simp
    next
      case inside: False
      show ?thesis
      proof (cases ok)
        case False
        then have "r = Inl ErrCopyingDataToHost"
          using c inside by (simp add: copyBlock_cases i ok_def)
        then show ?thesis using False True inside by simp
      next
        case yes: True
        define rt' where "rt' = take i ?rt @ map f [i ..< min (i + n) (length ?rt)] @ drop (i + n) ?rt"
        have r: "r = Inr rt'"
          and e: "effects tr' = effects ?S @ [Call (readCall tr blockReq)]"
          using c inside yes by (auto simp: copyBlock_cases i n ok_def rt'_def f_def)
        have il: "i < length ?rt" using inside by simp
        note pl = patched_list [OF il, of f n, folded rt'_def]
        have "length rt' = length ?rt
            \<and> (\<forall>j<length rt'. (i \<le> j \<and> j < i + n \<longrightarrow> rt' ! j = f j)
                               \<and> (j < i \<or> i + n \<le> j \<longrightarrow> rt' ! j = ?rt ! j))"
          using pl by blast
        then show ?thesis using r e yes True il by simp
      qed
    qed
  qed
  have whole: "\<forall>rt'. r = Inr rt' \<longrightarrow> i + n \<le> length ?rt
                 \<longrightarrow> (\<forall>j. i \<le> j \<and> j < i + n \<longrightarrow> j < length rt' \<and> rt' ! j = f j)"
  proof (intro allI impI)
    fix rt' j assume a: "r = Inr rt'" "i + n \<le> length ?rt" "i \<le> j \<and> j < i + n"
    have l: "length rt' = length ?rt" using main a(1) by blast
    then have j: "j < length rt'" using a(2,3) by simp
    have "rt' ! j = f j" using main a(1,3) j by blast
    then show "j < length rt' \<and> rt' ! j = f j" using j by simp
  qed
  show ?thesis
    using main whole call off(1,2)
    unfolding i_def n_def ok_def f_def by blast
qed


lemmas process_run =
  status_def okDevice_def SUCCESS_def kernelArgs_def binds_def argCall_def emit_def
  dispatch_def copyBlock_def Let_def readOffset_def blockSizeBytes_def new_effects_def
  frustumWrite_def ndrange_def readCall_def

text \<open>
  C3, as stated, fails where the 32-bit products wrap. On a frame \<open>2 ^ 28 + 1\<close> pixels
  wide, row 1 is processed with success, but the copy reads at byte offset 16 into float
  index 4, where the formulas of the claim give \<open>4294967312\<close> and \<open>1073741828\<close>.
\<close>

theorem copy_back_wraps:
  "fst (process okDevice rowOne wideTracer) = Inr [0, 0, 0, 0, 7, 7, 7, 7]
   \<and> last (effects (snd (process okDevice rowOne wideTracer)))
       = Call (EnqueueReadBuffer (Some 2) (Some 6) 16 16 4)
   \<and> 4 * 4 * unat (frameW wideTracer) * unat (BlockY rowOne) = 4294967312
   \<and> unat (frameW wideTracer) * 4 * unat (BlockY rowOne) = 1073741828"
  by (simp add: process_eq [OF wideTracer_fields(7)] process_run wideTracer_fields
        wideTracer_frameW rowOne_def)

lemma process_ok_lowerRow:
  "fst (process okDevice lowerRow readyTracer) = Inr [0, 0, 0, 0, 0, 0, 0, 0, 7, 7, 7, 7, 7, 7, 7, 7]"
  by (simp add: process_eq [OF readyTracer_fields(11)] process_run readyTracer_fields lowerRow_def)

lemma process_ok_shortRow:
  "fst (process okDevice shortRow readyTracer) = Inr [0, 0, 0, 0, 0, 0, 0, 0, 7]"
  by (simp add: process_eq [OF readyTracer_fields(11)] process_run readyTracer_fields
        shortRow_def lowerRow_def)

lemma deafDevice_reachesCopy: "reachesCopy deafDevice tr sc blockReq"
  by (simp add: reachesCopy_def bound_def refused_def status_def deafDevice_def list_all_iff
        frustumWrite_def ndrange_def argCall_def)

theorem copy_back_without_overflow_witness:
  "scene readyTracer = Some unitScene
   \<and> 16 * unat (frameW readyTracer) * unat (BlockY lowerRow) < 2 ^ 32
   \<and> 16 * unat (frameW readyTracer) * unat (BlockH lowerRow) < 2 ^ 32
   \<and> fst (process okDevice lowerRow readyTracer)
       = Inr [0, 0, 0, 0, 0, 0, 0, 0, 7, 7, 7, 7, 7, 7, 7, 7]
   \<and> last (effects (snd (process okDevice lowerRow readyTracer)))
       = Call (EnqueueReadBuffer (Some 2) (Some 6) 32 32 8)
   \<and> fst (process deafDevice lowerRow readyTracer) = Inl ErrCopyingDataToHost
   \<and> fst (process okDevice shortRow readyTracer) = Inr [0, 0, 0, 0, 0, 0, 0, 0, 7]"
proof -
  have sc: "scene readyTracer = Some unitScene"
    by (rule readyTracer_fields(11))
  have oy: "16 * unat (frameW readyTracer) * unat (BlockY lowerRow) < 2 ^ 32"
    by (simp add: readyTracer_fields lowerRow_def)
  have oh: "16 * unat (frameW readyTracer) * unat (BlockH lowerRow) < 2 ^ 32"
    by (simp add: readyTracer_fields lowerRow_def)
  have p: "process okDevice lowerRow readyTracer
             = (fst (process okDevice lowerRow readyTracer),
                snd (process okDevice lowerRow readyTracer))"
    by simp
  have q: "process deafDevice lowerRow readyTracer
             = (fst (process deafDevice lowerRow readyTracer),
                snd (process deafDevice lowerRow readyTracer))"
    by simp
  note t = copy_back_without_overflow [OF sc p oy oh]
  note u = copy_back_without_overflow [OF sc q oy oh]
  have c: "readCall readyTracer lowerRow = EnqueueReadBuffer (Some 2) (Some 6) 32 32 8"
    by (simp add: readCall_def readOffset_def blockSizeBytes_def readyTracer_fields lowerRow_def
          unat_quarter)
  have "effects (snd (process okDevice lowerRow readyTracer))
          = effects (beforeCopy readyTracer unitScene lowerRow) @ [Call (readCall readyTracer lowerRow)]"
    using t process_ok_lowerRow by blast
  then have l: "last (effects (snd (process okDevice lowerRow readyTracer)))
                  = Call (EnqueueReadBuffer (Some 2) (Some 6) 32 32 8)"
    unfolding c by simp
  have i: "unat (frameW readyTracer) * 4 * unat (BlockY lowerRow) < length (RenderTarget lowerRow)"
    by (simp add: readyTracer_fields lowerRow_def)
  have s: "status deafDevice (readCall readyTracer lowerRow) (beforeCopy readyTracer unitScene lowerRow)
             \<noteq> SUCCESS"
    unfolding c by (simp add: status_def deafDevice_def SUCCESS_def)
  have m: "fst (process deafDevice lowerRow readyTracer) = Inl ErrCopyingDataToHost"
    using u deafDevice_reachesCopy [of readyTracer unitScene lowerRow] i s by blast
  show ?thesis
    using sc oy oh l m process_ok_lowerRow process_ok_shortRow by simp
qed

subsection \<open>Close\<close>








lemma closing_fields [simp]:
  "ctx (closing tr) = ctx tr" "cmdQueue (closing tr) = cmdQueue tr"
  "traceProgram (closing tr) = traceProgram tr" "traceKernel (closing tr) = traceKernel tr"
  "traceOutput (closing tr) = traceOutput tr" "frustrumCorners (closing tr) = frustrumCorners tr"
  "packedMaterials (closing tr) = packedMaterials tr"
  "packedPrimitives (closing tr) = packedPrimitives tr" "scene (closing tr) = scene tr"
  "frameW (closing tr) = frameW tr" "frameH (closing tr) = frameH tr"
  "workers (closing tr) = workers tr" "effects (closing tr) = effects tr @ [CloseChan]"
  "closeChanClosed (closing tr)"
  by (simp_all add: closing_def emit_def)


lemma releasing_fields [simp]:
  "ctx (releasing t) = None" "workers (releasing t) = []"
  "effects (releasing t) = effects t @ WgWait # releases t"
  by (simp_all add: releasing_def)







lemma servedRow_no_release: "\<not> list_ex is_release servedRow"
  by (simp add: servedRow_def)


subsection \<open>Enqueue\<close>

lemma handoff_Cons:
  "handoff r (w # ws) = (if w = Listening then Some (Handling r # ws) else map_option ((#) w) (handoff r ws))"
  by (cases w) simp_all

lemma handoff_None: "handoff r ws = None \<longleftrightarrow> Listening \<notin> set ws"
  by (induction ws) (auto simp: handoff_Cons)

lemma handoff_Some:
  "handoff r ws = Some ws' \<Longrightarrow> \<exists>i<length ws. ws ! i = Listening \<and> ws' = ws[i := Handling r]"
proof (induction ws arbitrary: ws')
  case Nil
  then show ?case by simp
next
  case (Cons w ws)
  show ?case
  proof (cases "w = Listening")
    case True
    then have "ws' = Handling r # ws" using Cons.prems by (simp add: handoff_Cons)
    then show ?thesis using True by (intro exI [of _ 0]) simp
  next
    case False
    then obtain vs where vs: "handoff r ws = Some vs" "ws' = w # vs"
      using Cons.prems by (auto simp: handoff_Cons)
    from Cons.IH [OF vs(1)] obtain i where "i < length ws" "ws ! i = Listening" "vs = ws[i := Handling r]"
      by blast
    then show ?thesis using vs(2) by (intro exI [of _ "Suc i"]) simp
  qed
qed

text \<open>
  C8. \<open>Enqueue\<close> is a total function: it returns at once. When no worker is blocked
  in the \<^verbatim>\<open>select\<close> (no worker yet, the worker gone after \<open>Close\<close>, or the worker busy
  with an earlier request) the controller is left exactly as it was: the request is kept
  nowhere, so no worker can ever answer it on \<^verbatim>\<open>DoneChan\<close> or \<^verbatim>\<open>ErrChan\<close>. In every case
  \<open>Enqueue\<close> itself sends nothing, and a request that is taken goes to one listening
  worker and to nothing else: there is no queue.
\<close>

theorem Enqueue_drops_unless_listening:
  "(Listening \<notin> set (workers tr) \<longrightarrow> Enqueue blockReq tr = tr)
   \<and> effects (Enqueue blockReq tr) = effects tr
   \<and> (Listening \<in> set (workers tr) \<longrightarrow>
        (\<exists>i<length (workers tr). workers tr ! i = Listening
           \<and> Enqueue blockReq tr = tr\<lparr>workers := (workers tr)[i := Handling blockReq]\<rparr>))"
proof (cases "handoff blockReq (workers tr)")
  case None
  then show ?thesis using handoff_None [of blockReq "workers tr"] by (simp add: Enqueue_def)
next
  case (Some ws')
  have l: "Listening \<in> set (workers tr)"
    using Some handoff_None [of blockReq "workers tr"] by auto
  obtain i where i: "i < length (workers tr)" "workers tr ! i = Listening"
      "ws' = (workers tr)[i := Handling blockReq]"
    using handoff_Some [OF Some] by blast
  have e: "Enqueue blockReq tr = tr\<lparr>workers := (workers tr)[i := Handling blockReq]\<rparr>"
    using Some i(3) by (simp add: Enqueue_def)
  have "effects (Enqueue blockReq tr) = effects tr"
    unfolding e by simp
  then show ?thesis using l i(1,2) e by blast
qed

lemma Close_ready: "Close okEnv readyTracer = (Inr (), releasing (closing readyTracer))"
proof -
  have "wgWait okEnv (workers readyTracer) (closing readyTracer) = (Inr [], closing readyTracer)"
    by (rule wgWait_idle) (simp add: readyTracer_fields)
  then show ?thesis
    by (simp add: Close_def cleanup_eq readyTracer_fields)
qed

lemma closed_workers: "workers (snd (Close okEnv readyTracer)) = []"
  by (simp add: Close_ready)

theorem Enqueue_drops_unless_listening_witness:
  "Enqueue rowOne freshTracer = freshTracer
   \<and> Enqueue rowOne readyTracer = readyTracer
   \<and> Enqueue rowOne (snd (Close okEnv readyTracer)) = snd (Close okEnv readyTracer)
   \<and> workers busyTracer = [Handling rowOne]
   \<and> Enqueue rowOne busyTracer = busyTracer"
proof -
  have f: "workers freshTracer = []"
    by (simp add: freshTracer_def newTracer_def okDevice_def errptr_def Let_def)
  have b: "workers busyTracer = [Handling rowOne]"
    by (simp add: busyTracer_def Enqueue_def listen_def readyTracer_fields)
  show ?thesis
    using Enqueue_drops_unless_listening [of freshTracer rowOne]
      Enqueue_drops_unless_listening [of readyTracer rowOne]
      Enqueue_drops_unless_listening [of "snd (Close okEnv readyTracer)" rowOne]
      Enqueue_drops_unless_listening [of busyTracer rowOne] f b
    by (simp add: readyTracer_fields closed_workers)
qed

end
